theory Spec2Isabelle
  imports Complex_Main
begin

section \<open>Values and errors\<close>

text \<open>
  The module \<^verbatim>\<open>Effects.py\<close> works on one-dimensional numpy arrays of floats.
  A buffer handed to a function is a \<open>real list\<close>: samples are modelled in exact
  arithmetic. Scalar parameters are Python numbers, modelled as \<open>real\<close> as well.
  An exception is a value of type \<open>error\<close>, carrying the exception class of Python and
  its message; a function that can raise returns \<open>error + 'a\<close>.
\<close>

datatype error =
    ValueError string
  | TypeError string
  | IndexError string
  | ZeroDivisionError string
  | OverflowError string

fun bind_result :: "error + 'a \<Rightarrow> ('a \<Rightarrow> error + 'b) \<Rightarrow> error + 'b" where
  "bind_result (Inl e) f = Inl e"
| "bind_result (Inr v) f = f v"

text \<open>
  numpy does not raise on a float division by zero: it returns an infinity or NaN (and
  prints a warning). Where the code divides arrays or numpy scalars, the result is
  therefore a value of \<open>fval\<close>: a finite number or one of the three special floats.
\<close>

datatype fval = Fin real | PInf | NInf | NaN

fun fneg :: "fval \<Rightarrow> fval" where
  "fneg (Fin x) = Fin (- x)"
| "fneg PInf = NInf"
| "fneg NInf = PInf"
| "fneg NaN = NaN"

fun fadd :: "fval \<Rightarrow> fval \<Rightarrow> fval" where
  "fadd (Fin x) (Fin y) = Fin (x + y)"
| "fadd NaN _ = NaN"
| "fadd _ NaN = NaN"
| "fadd PInf NInf = NaN"
| "fadd NInf PInf = NaN"
| "fadd PInf _ = PInf"
| "fadd _ PInf = PInf"
| "fadd NInf _ = NInf"
| "fadd _ NInf = NInf"

definition fsub :: "fval \<Rightarrow> fval \<Rightarrow> fval" where
  "fsub a b = fadd a (fneg b)"

definition inf_of_sign :: "real \<Rightarrow> fval" where
  "inf_of_sign x = (if x = 0 then NaN else if 0 < x then PInf else NInf)"

fun fsign :: "fval \<Rightarrow> real" where
  "fsign (Fin x) = sgn x"
| "fsign PInf = 1"
| "fsign NInf = - 1"
| "fsign NaN = 0"

fun fmul :: "fval \<Rightarrow> fval \<Rightarrow> fval" where
  "fmul (Fin x) (Fin y) = Fin (x * y)"
| "fmul NaN _ = NaN"
| "fmul _ NaN = NaN"
| "fmul a b = inf_of_sign (fsign a * fsign b)"

fun fdiv :: "fval \<Rightarrow> fval \<Rightarrow> fval" where
  "fdiv (Fin x) (Fin y) = (if y = 0 then inf_of_sign x else Fin (x / y))"
| "fdiv NaN _ = NaN"
| "fdiv _ NaN = NaN"
| "fdiv (Fin x) _ = Fin 0"
| "fdiv PInf (Fin y) = (if 0 \<le> y then PInf else NInf)"
| "fdiv NInf (Fin y) = (if 0 \<le> y then NInf else PInf)"
| "fdiv _ _ = NaN"

fun ftanh :: "fval \<Rightarrow> fval" where
  "ftanh (Fin x) = Fin (tanh x)"
| "ftanh PInf = Fin 1"
| "ftanh NInf = Fin (- 1)"
| "ftanh NaN = NaN"

text \<open>A comparison with NaN is false.\<close>

fun fgreater :: "fval \<Rightarrow> real \<Rightarrow> bool" where
  "fgreater (Fin x) t = (t < x)"
| "fgreater PInf t = True"
| "fgreater NInf t = False"
| "fgreater NaN t = False"

section \<open>Python and numpy primitives used by the module\<close>

text \<open>\<^verbatim>\<open>int(x)\<close> on a float truncates towards zero.\<close>

definition py_int :: "real \<Rightarrow> int" where
  "py_int x = (if 0 \<le> x then \<lfloor>x\<rfloor> else \<lceil>x\<rceil>)"

text \<open>\<^verbatim>\<open>int(np.round(x))\<close>: numpy rounds to the nearest integer, a half to the even one.\<close>

definition np_round :: "real \<Rightarrow> int" where
  "np_round x =
     (let f = \<lfloor>x\<rfloor>; d = x - of_int f
      in if d < 1 / 2 then f
         else if 1 / 2 < d then f + 1
         else if even f then f else f + 1)"

text \<open>
  \<^verbatim>\<open>np.linspace(start, stop, num, endpoint)\<close>: a negative \<open>num\<close> raises; otherwise
  sample \<open>i\<close> is \<open>start + i * step\<close>, where the step divides the span by \<open>num - 1\<close>
  (with the endpoint) or by \<open>num\<close> (without), and is the span itself when that
  divisor is not positive.
\<close>

definition np_linspace :: "real \<Rightarrow> real \<Rightarrow> int \<Rightarrow> bool \<Rightarrow> error + real list" where
  "np_linspace start stop num endpoint =
     (if num < 0 then Inl (ValueError ''Number of samples must be non-negative'')
      else
        let dv = (if endpoint then num - 1 else num);
            step = (if 0 < dv then (stop - start) / of_int dv else stop - start)
        in Inr (map (\<lambda>i. start + of_nat i * step) [0..<nat num]))"

text \<open>
  A slice \<^verbatim>\<open>xs[start:stop]\<close>: a negative bound counts from the end, and every bound
  is clamped to the array; an omitted bound is \<open>None\<close>. The slice is given by its
  first index and its length.
\<close>

definition slice_bound :: "int \<Rightarrow> nat \<Rightarrow> nat" where
  "slice_bound i n = (if i < 0 then nat (i + int n) else min (nat i) n)"

definition slice_range :: "int option \<Rightarrow> int option \<Rightarrow> nat \<Rightarrow> nat \<times> nat" where
  "slice_range start stop n =
     (let lo = (case start of None \<Rightarrow> 0 | Some i \<Rightarrow> slice_bound i n);
          hi = (case stop of None \<Rightarrow> n | Some j \<Rightarrow> slice_bound j n)
      in (lo, hi - lo))"

text \<open>
  \<^verbatim>\<open>xs[start:stop] = vs\<close> with an array on the right: the shapes must agree, or the
  right-hand side has one element, which is repeated; any other shape raises.
\<close>

definition slice_assign ::
  "'a list \<Rightarrow> int option \<Rightarrow> int option \<Rightarrow> 'a list \<Rightarrow> error + 'a list" where
  "slice_assign xs start stop vs =
     (case slice_range start stop (length xs) of (lo, len) \<Rightarrow>
        if length vs = len then Inr (take lo xs @ vs @ drop (lo + len) xs)
        else if length vs = 1 then Inr (take lo xs @ replicate len (hd vs) @ drop (lo + len) xs)
        else Inl (ValueError ''could not broadcast input array''))"

text \<open>\<^verbatim>\<open>xs[start:stop] = c\<close> with a scalar on the right never raises.\<close>

definition slice_fill :: "'a list \<Rightarrow> int option \<Rightarrow> int option \<Rightarrow> 'a \<Rightarrow> 'a list" where
  "slice_fill xs start stop c =
     (case slice_range start stop (length xs) of (lo, len) \<Rightarrow>
        take lo xs @ replicate len c @ drop (lo + len) xs)"

section \<open>The amplitude envelope\<close>

text \<open>
  \<^verbatim>\<open>adsr_envelope(audio, length, sr, attack, decay, sustain, release, on)\<close>, statement
  by statement. The envelope starts as \<open>total_samples\<close> zeros and is written phase by
  phase through slice assignments; the result is a new array, the product of the input
  and the envelope. Switched off, the function returns its argument.
\<close>

definition adsr_envelope ::
  "real list \<Rightarrow> real \<Rightarrow> real \<Rightarrow> real \<Rightarrow> real \<Rightarrow> real \<Rightarrow> real \<Rightarrow> bool \<Rightarrow> error + real list" where
  "adsr_envelope audio len sr attack decay sustain release on =
     (if on then
        let total_samples = length audio;
            max_attack_samples = np_round (len * sr / 4);
            max_decay_samples = np_round (len * sr / 4);
            attack_samples0 = np_round (attack * sr);
            decay_samples0 = np_round (decay * sr);
            release_samples = np_round (release * sr);
            attack_samples = min attack_samples0 max_attack_samples;
            decay_samples = min decay_samples0 max_decay_samples;
            envelope0 = replicate total_samples 0
        in
        bind_result (np_linspace 0 1 attack_samples False) (\<lambda>attack_values.
        bind_result (slice_assign envelope0 None (Some attack_samples) attack_values) (\<lambda>envelope1.
        bind_result (np_linspace 1 sustain decay_samples False) (\<lambda>decay_values.
        bind_result (slice_assign envelope1 (Some attack_samples)
                       (Some (attack_samples + decay_samples)) decay_values) (\<lambda>envelope2.
        let envelope3 = slice_fill envelope2 (Some (attack_samples + decay_samples))
                          (Some (int total_samples - release_samples)) sustain
        in
        bind_result (np_linspace sustain 0 release_samples True) (\<lambda>release_values.
        bind_result (slice_assign envelope3 (Some (- release_samples)) None release_values) (\<lambda>envelope.
        Inr (map2 (*) audio envelope)))))))
      else Inr audio)"


section \<open>Oscillators\<close>

definition oscillator_types :: "string list" where
  "oscillator_types =
     [''sine'', ''square'', ''sawtooth'', ''triangle'', ''pwm'', ''noise'', ''sine2'',
      ''sawtooth2'', ''triangle2'', ''harmonic'', ''sawtooth3'', ''triangle3'', ''square3'',
      ''fm_sine'', ''fm_square'', ''fm_sawtooth'', ''fm_triangle'']"

text \<open>
  The periodic waveforms of \<^verbatim>\<open>scipy.signal\<close>, on one sample. Both reduce the phase
  modulo \<open>2\<pi>\<close> (numpy's \<open>mod\<close> has the sign of the divisor). \<open>signal_square\<close> is
  \<open>1\<close> on the first \<open>duty\<close> part of the period and \<open>-1\<close> on the rest;
  \<open>signal_sawtooth\<close> rises from \<open>-1\<close> to \<open>1\<close> on the first \<open>width\<close> part and
  falls back on the rest. The module passes a duty of \<open>0.5\<close> and widths \<open>1\<close> and
  \<open>0.5\<close> only, all inside \<open>[0, 1]\<close>.
\<close>

definition np_mod :: "real \<Rightarrow> real \<Rightarrow> real" where
  "np_mod x y = x - y * of_int \<lfloor>x / y\<rfloor>"

definition signal_square :: "real \<Rightarrow> real \<Rightarrow> real" where
  "signal_square duty t = (if np_mod t (2 * pi) < duty * 2 * pi then 1 else - 1)"

definition signal_sawtooth :: "real \<Rightarrow> real \<Rightarrow> real" where
  "signal_sawtooth width t =
     (let tmod = np_mod t (2 * pi)
      in if tmod < width * 2 * pi then tmod / (pi * width) - 1
         else (pi * (width + 1) - tmod) / (pi * (1 - width)))"

text \<open>\<^verbatim>\<open>pwm_wave(freq, length, sr, duty_cycle=0.5)\<close>.\<close>

definition pwm_wave :: "real \<Rightarrow> real \<Rightarrow> real \<Rightarrow> real \<Rightarrow> error + real list" where
  "pwm_wave freq len sr duty_cycle =
     bind_result (np_linspace 0 len (py_int (len * sr)) False) (\<lambda>t.
     Inr (map (\<lambda>ti. signal_square duty_cycle (2 * pi * freq * ti)) t))"

text \<open>
  \<^verbatim>\<open>white_noise(length, sr)\<close> draws from numpy's global random generator. The source
  of randomness is the parameter \<open>rnd\<close>: the value of the \<open>i\<close>-th draw.
\<close>

definition white_noise :: "(nat \<Rightarrow> real) \<Rightarrow> real \<Rightarrow> real \<Rightarrow> error + real list" where
  "white_noise rnd len sr =
     (let n = py_int (len * sr)
      in if n < 0 then Inl (ValueError ''negative dimensions are not allowed'')
         else Inr (map rnd [0..<nat n]))"

text \<open>
  \<^verbatim>\<open>oscillator(freq, length, sr, osc_type='sine', fm_index=0, fm_freq=0)\<close>. The time axis
  is computed first, whatever the type; then the chain of comparisons selects the
  waveform, and its last branch raises.
\<close>

definition oscillator ::
  "(nat \<Rightarrow> real) \<Rightarrow> real \<Rightarrow> real \<Rightarrow> real \<Rightarrow> string \<Rightarrow> real \<Rightarrow> real \<Rightarrow> error + real list" where
  "oscillator rnd freq len sr osc_type fm_index fm_freq =
     bind_result (np_linspace 0 len (py_int (len * sr)) False) (\<lambda>t.
       if osc_type = ''sine'' then
         Inr (map (\<lambda>ti. sin (2 * pi * freq * ti)) t)
       else if osc_type = ''square'' then
         Inr (map (\<lambda>ti. signal_square (1 / 2) (2 * pi * freq * ti)) t)
       else if osc_type = ''sawtooth'' then
         Inr (map (\<lambda>ti. signal_sawtooth 1 (2 * pi * freq * ti)) t)
       else if osc_type = ''triangle'' then
         Inr (map (\<lambda>ti. signal_sawtooth (1 / 2) (2 * pi * freq * ti)) t)
       else if osc_type = ''pwm'' then
         pwm_wave freq len sr (1 / 2)
       else if osc_type = ''noise'' then
         white_noise rnd len sr
       else if osc_type = ''sine2'' then
         Inr (map (\<lambda>ti. sin (2 * pi * freq * ti) + sin (2 * pi * 2 * freq * ti) / 2) t)
       else if osc_type = ''sawtooth2'' then
         Inr (map (\<lambda>ti. signal_sawtooth 1 (2 * pi * freq * ti)
                        + signal_sawtooth 1 (2 * pi * 2 * freq * ti) / 2) t)
       else if osc_type = ''triangle2'' then
         Inr (map (\<lambda>ti. signal_sawtooth (1 / 2) (2 * pi * freq * ti)
                        + signal_sawtooth (1 / 2) (2 * pi * 2 * freq * ti) / 2) t)
       else if osc_type = ''harmonic'' then
         Inr (map (\<lambda>ti. sin (2 * pi * freq * ti) + sin (2 * pi * 2 * freq * ti) / 2
                        + sin (2 * pi * 3 * freq * ti) / 3) t)
       else if osc_type = ''sawtooth3'' then
         Inr (map (\<lambda>ti. signal_sawtooth 1 (2 * pi * freq * ti)
                        + signal_sawtooth 1 (2 * pi * 2 * freq * ti) / 2
                        + signal_sawtooth 1 (2 * pi * 3 * freq * ti) / 3) t)
       else if osc_type = ''triangle3'' then
         Inr (map (\<lambda>ti. signal_sawtooth (1 / 2) (2 * pi * freq * ti)
                        + signal_sawtooth (1 / 2) (2 * pi * 2 * freq * ti) / 2
                        + signal_sawtooth (1 / 2) (2 * pi * 3 * freq * ti) / 3) t)
       else if osc_type = ''square3'' then
         Inr (map (\<lambda>ti. signal_square (1 / 2) (2 * pi * freq * ti)
                        + signal_square (1 / 2) (2 * pi * 2 * freq * ti) / 2
                        + signal_square (1 / 2) (2 * pi * 3 * freq * ti) / 3) t)
       else if osc_type = ''fm_sine'' then
         Inr (map (\<lambda>ti. sin (2 * pi * (freq + fm_index * sin (2 * pi * fm_freq * ti)) * ti)) t)
       else if osc_type = ''fm_square'' then
         Inr (map (\<lambda>ti. signal_square (1 / 2)
                (2 * pi * (freq + fm_index * signal_square (1 / 2) (2 * pi * fm_freq * ti)) * ti)) t)
       else if osc_type = ''fm_sawtooth'' then
         Inr (map (\<lambda>ti. signal_sawtooth 1
                (2 * pi * (freq + fm_index * signal_sawtooth 1 (2 * pi * fm_freq * ti)) * ti)) t)
       else if osc_type = ''fm_triangle'' then
         Inr (map (\<lambda>ti. signal_sawtooth (1 / 2)
                (2 * pi * (freq + fm_index * signal_sawtooth (1 / 2) (2 * pi * fm_freq * ti)) * ti)) t)
       else
         Inl (ValueError (''Invalid oscillator type '' @ [CHR 0x27] @ osc_type @ [CHR 0x27])))"

section \<open>Normalisation\<close>

text \<open>
  \<^verbatim>\<open>np.max\<close> raises on an empty array and returns NaN as soon as one element is NaN.
\<close>

fun fabs :: "fval \<Rightarrow> fval" where
  "fabs (Fin x) = Fin \<bar>x\<bar>"
| "fabs PInf = PInf"
| "fabs NInf = PInf"
| "fabs NaN = NaN"

fun fmax :: "fval \<Rightarrow> fval \<Rightarrow> fval" where
  "fmax (Fin x) (Fin y) = Fin (max x y)"
| "fmax NaN _ = NaN"
| "fmax _ NaN = NaN"
| "fmax PInf _ = PInf"
| "fmax _ PInf = PInf"
| "fmax NInf b = b"
| "fmax a NInf = a"

definition np_max :: "fval list \<Rightarrow> error + fval" where
  "np_max xs =
     (case xs of
        [] \<Rightarrow> Inl (ValueError ''zero-size array to reduction operation maximum which has no identity'')
      | x # rest \<Rightarrow> Inr (fold fmax rest x))"

text \<open>\<^verbatim>\<open>normalize_audio(audio)\<close>: \<^verbatim>\<open>audio / np.max(np.abs(audio))\<close>, a numpy division.\<close>

definition normalize_audio :: "real list \<Rightarrow> error + fval list" where
  "normalize_audio audio =
     bind_result (np_max (map (\<lambda>x. fabs (Fin x)) audio)) (\<lambda>peak.
     Inr (map (\<lambda>x. fdiv (Fin x) peak) audio))"

section \<open>Recursive filters\<close>

text \<open>
  \<^verbatim>\<open>scipy.signal.lfilter(b, a, x)\<close> on coefficient arrays of three elements, the only
  shape this module passes. It refuses a zero \<open>a[0]\<close>, divides every coefficient by
  \<open>a[0]\<close>, and runs the transposed direct form II from a zero state: the output
  has one sample for each input sample.
\<close>

type_synonym coeffs = "fval \<times> fval \<times> fval"

fun lfilter_run :: "coeffs \<Rightarrow> coeffs \<Rightarrow> fval \<Rightarrow> fval \<Rightarrow> fval list \<Rightarrow> fval list" where
  "lfilter_run b a z0 z1 [] = []"
| "lfilter_run (b0, b1, b2) (a0, a1, a2) z0 z1 (x # xs) =
     (let y = fadd z0 (fmul b0 x);
          z0' = fsub (fadd z1 (fmul x b1)) (fmul y a1);
          z1' = fsub (fmul x b2) (fmul y a2)
      in y # lfilter_run (b0, b1, b2) (a0, a1, a2) z0' z1' xs)"

definition lfilter :: "coeffs \<Rightarrow> coeffs \<Rightarrow> fval list \<Rightarrow> error + fval list" where
  "lfilter b a x =
     (case (b, a) of ((b0, b1, b2), (a0, a1, a2)) \<Rightarrow>
        if a0 = Fin 0 then Inl (ValueError ''filter coefficient a[0] == 0 not supported yet'')
        else Inr (lfilter_run (fdiv b0 a0, fdiv b1 a0, fdiv b2 a0)
                              (fdiv a0 a0, fdiv a1 a0, fdiv a2 a0) (Fin 0) (Fin 0) x))"

text \<open>A division of two Python floats raises on a zero divisor.\<close>

definition py_div :: "real \<Rightarrow> real \<Rightarrow> error + real" where
  "py_div x y = (if y = 0 then Inl (ZeroDivisionError ''float division by zero'') else Inr (x / y))"

text \<open>
  \<^verbatim>\<open>scipy.signal.butter(2, Wn, btype, analog=False, output='ba')\<close> designs the
  second-order Butterworth filter. The design is a parameter of the functions that call
  it: a function from the normalised cutoff and the band type to the coefficient arrays
  \<open>(b, a)\<close>, or to the error it raises.
\<close>

datatype btype = Low | High

type_synonym butter_design = "real \<Rightarrow> btype \<Rightarrow> error + ((real \<times> real \<times> real) \<times> (real \<times> real \<times> real))"

definition fin3 :: "real \<times> real \<times> real \<Rightarrow> coeffs" where
  "fin3 c = (case c of (c0, c1, c2) \<Rightarrow> (Fin c0, Fin c1, Fin c2))"

text \<open>\<^verbatim>\<open>filter_envelope(audio, length, sr, freq_cutoff, freq_start, freq_end, on)\<close>.\<close>

definition filter_envelope ::
  "butter_design \<Rightarrow> real list \<Rightarrow> real \<Rightarrow> real \<Rightarrow> real \<Rightarrow> real \<Rightarrow> real \<Rightarrow> bool \<Rightarrow> error + fval list" where
  "filter_envelope butter audio len sr freq_cutoff freq_start freq_end on =
     (if on then
        let total_samples = length audio
        in
        bind_result (np_linspace freq_start freq_end (int total_samples) True) (\<lambda>envelope.
        bind_result (py_div freq_cutoff (sr / 2)) (\<lambda>wn.
        bind_result (butter wn Low) (\<lambda>(b, a).
        bind_result (lfilter (fin3 b) (fin3 a) (map Fin envelope)) (\<lambda>filtered_envelope.
        bind_result (np_max (map fabs filtered_envelope)) (\<lambda>peak.
        let filtered_envelope' = map (\<lambda>v. fdiv v peak) filtered_envelope
        in Inr (map2 (\<lambda>x v. fmul (Fin x) v) audio filtered_envelope'))))))
      else Inr (map Fin audio))"

text \<open>\<^verbatim>\<open>lowpass_filter(audio, cutoff, resonance, sr, on)\<close> and its high-pass twin.\<close>

definition lowpass_filter ::
  "butter_design \<Rightarrow> real list \<Rightarrow> real \<Rightarrow> real \<Rightarrow> real \<Rightarrow> bool \<Rightarrow> error + fval list" where
  "lowpass_filter butter audio cutoff resonance sr on =
     (if on then
        let nyq = 0.5 * sr
        in
        bind_result (py_div cutoff nyq) (\<lambda>normalized_cutoff.
        bind_result (butter normalized_cutoff Low) (\<lambda>(b, a).
        bind_result (lfilter (fin3 b) (fin3 a) (map Fin audio)) (\<lambda>filtered_audio.
        Inr (map (\<lambda>v. fmul v (Fin resonance)) filtered_audio))))
      else Inr (map Fin audio))"

definition highpass_filter ::
  "butter_design \<Rightarrow> real list \<Rightarrow> real \<Rightarrow> real \<Rightarrow> real \<Rightarrow> bool \<Rightarrow> error + fval list" where
  "highpass_filter butter audio cutoff resonance sr on =
     (if on then
        let nyq = 0.5 * sr
        in
        bind_result (py_div cutoff nyq) (\<lambda>normalized_cutoff.
        bind_result (butter normalized_cutoff High) (\<lambda>(b, a).
        bind_result (lfilter (fin3 b) (fin3 a) (map Fin audio)) (\<lambda>filtered_audio.
        Inr (map (\<lambda>v. fmul v (Fin resonance)) filtered_audio))))
      else Inr (map Fin audio))"


section \<open>Dynamics and distortion\<close>

text \<open>
  A Python call binds its positional arguments to the parameters before the body runs,
  and raises \<open>TypeError\<close> when a required parameter is left without a value.
  \<open>adsr_envelope\<close> has eight parameters, none with a default value.
  \<open>adsr_envelope_call\<close> is the function called with a list of positional arguments:
  the body runs on eight arguments of the types it works on. (The module has one such
  call, in \<open>compressor\<close>.)
\<close>

datatype pyval = PyArray "real list" | PyNum real | PyBool bool

definition adsr_envelope_call :: "pyval list \<Rightarrow> error + real list" where
  "adsr_envelope_call args =
     (if length args < 8 then
        Inl (TypeError ''adsr_envelope() missing required positional arguments'')
      else if 8 < length args then
        Inl (TypeError ''adsr_envelope() takes 8 positional arguments but more were given'')
      else
        (case args of
           [PyArray audio, PyNum len, PyNum sr, PyNum attack, PyNum decay, PyNum sustain,
            PyNum release, PyBool on] \<Rightarrow>
             adsr_envelope audio len sr attack decay sustain release on
         | _ \<Rightarrow> Inl (TypeError ''argument of an unexpected type'')))"

text \<open>
  \<^verbatim>\<open>compressor(audio, threshold, ratio, attack, release, on)\<close>. The root mean square is
  a numpy scalar (NaN for an empty buffer), so the comparison and the division follow
  numpy. \<^verbatim>\<open>np.finfo(float).eps\<close> is \<open>2\<^sup>-\<^sup>5\<^sup>2\<close>. The assignment to \<open>audio\<close> binds the
  local name to a new array.
\<close>

definition float_eps :: real where
  "float_eps = 1 / 2 ^ 52"

definition compressor ::
  "real list \<Rightarrow> real \<Rightarrow> real \<Rightarrow> real \<Rightarrow> real \<Rightarrow> bool \<Rightarrow> error + fval list" where
  "compressor audio threshold ratio attack release on =
     (if on then
        let rms = (if audio = [] then NaN
                   else Fin (sqrt (sum_list (map (\<lambda>x. x ^ 2) audio) / real (length audio))))
        in
        if fgreater rms threshold then
          bind_result (adsr_envelope_call
                         [PyNum (real (length audio)), PyNum 44100, PyNum attack, PyNum 0,
                          PyNum 1, PyNum release]) (\<lambda>env.
          let gain_reduction =
                fdiv (fsub rms (Fin threshold))
                     (fadd (fsub (fmul rms (Fin ratio)) (Fin threshold)) (Fin float_eps))
          in Inr (map2 (\<lambda>x e. fmul (Fin x) (fsub (Fin 1) (fmul (Fin e) gain_reduction)))
                    audio env))
        else Inr (map Fin audio)
      else Inr (map Fin audio))"

text \<open>\<^verbatim>\<open>distortion(audio, threshold, on)\<close>: a numpy division, so it never raises.\<close>

definition distortion :: "real list \<Rightarrow> real \<Rightarrow> bool \<Rightarrow> fval list" where
  "distortion audio threshold on =
     (if on then map (\<lambda>x. fmul (ftanh (fdiv (Fin x) (Fin threshold))) (Fin threshold)) audio
      else map Fin audio)"

section \<open>Reverb\<close>

text \<open>
  \<open>reverb\<close> is the one function of the module that writes into the array it is given.
  The caller's arrays live in a store, and the function takes the store and the
  reference of its argument; it returns its outcome, an error or the reference of the
  array it returns, together with the store it leaves behind. The delay line is a
  fresh array, local to the call.

  An index into a numpy array may be negative, counting from the end; outside
  \<open>[-n, n)\<close> it raises.
\<close>

type_synonym ref = nat
type_synonym store = "ref \<Rightarrow> real list"

definition np_index :: "int \<Rightarrow> nat \<Rightarrow> error + nat" where
  "np_index i n =
     (if 0 \<le> i \<and> i < int n then Inr (nat i)
      else if - int n \<le> i \<and> i < 0 then Inr (nat (i + int n))
      else Inl (IndexError ''index is out of bounds for axis 0''))"

text \<open>
  The loop over \<^verbatim>\<open>range(len(audio))\<close>, on the pair of the delay line and the audio
  array. An error ends the loop and leaves both arrays as they are at that moment.
\<close>

fun reverb_loop ::
  "int \<Rightarrow> real \<Rightarrow> nat list \<Rightarrow> real list \<times> real list \<Rightarrow> error option \<times> real list \<times> real list" where
  "reverb_loop delay_samples decay [] st = (None, st)"
| "reverb_loop delay_samples decay (i # rest) (buffer, audio) =
     (case np_index (int i) (length buffer) of
        Inl e \<Rightarrow> (Some e, buffer, audio)
      | Inr j \<Rightarrow>
          let delayed = buffer ! j * decay
          in (case np_index (int i + delay_samples) (length buffer) of
                Inl e \<Rightarrow> (Some e, buffer, audio)
              | Inr k \<Rightarrow>
                  let buffer1 = buffer[k := buffer ! k + audio ! i];
                      buffer2 = buffer1[j := buffer1 ! j + delayed];
                      audio' = audio[i := audio ! i + delayed]
                  in reverb_loop delay_samples decay rest (buffer2, audio')))"

definition reverb ::
  "store \<Rightarrow> ref \<Rightarrow> real \<Rightarrow> real \<Rightarrow> real \<Rightarrow> bool \<Rightarrow> (error + ref) \<times> store" where
  "reverb s audio sr delay decay on =
     (if on then
        let delay_samples = py_int (delay * sr);
            size = delay_samples + int (length (s audio))
        in
        if size < 0 then (Inl (ValueError ''negative dimensions are not allowed''), s)
        else
          (case reverb_loop delay_samples decay [0..<length (s audio)]
                  (replicate (nat size) 0, s audio) of
             (None, buffer, audio') \<Rightarrow> (Inr audio, s(audio := audio'))
           | (Some e, buffer, audio') \<Rightarrow> (Inl e, s(audio := audio')))
      else (Inr audio, s))"

section \<open>Equalizer\<close>

text \<open>
  The coefficients of one band, as the body of the first loop of \<open>equalizer\<close> computes
  them. \<open>w0\<close> is a quotient of Python floats; \<open>alpha\<close> is a quotient of numpy
  scalars, and so are the coefficients built from it. \<open>A\<close> is a power of Python floats,
  \<^verbatim>\<open>10**(gain / 40)\<close>: Python raises \<open>OverflowError\<close> when the power is too large
  for a float, that is, beyond the largest double \<open>(2\<^sup>5\<^sup>3 - 1) * 2\<^sup>9\<^sup>7\<^sup>1\<close>. (The base
  is positive here, so the power is \<open>powr\<close>; a power too small for a float rounds to
  \<open>0\<close> and raises nothing.)
\<close>

definition float_max :: real where
  "float_max = (2 ^ 53 - 1) * 2 ^ 971"

definition py_pow :: "real \<Rightarrow> real \<Rightarrow> error + real" where
  "py_pow x y =
     (if float_max < x powr y then Inl (OverflowError ''Numerical result out of range'')
      else Inr (x powr y))"

definition biquad :: "real \<Rightarrow> real \<Rightarrow> real \<Rightarrow> real \<Rightarrow> error + (coeffs \<times> coeffs)" where
  "biquad sr center_freq gain q =
     bind_result (py_div (2 * pi * center_freq) sr) (\<lambda>w0.
     let alpha = fdiv (Fin (sin w0)) (Fin (2 * q))
     in
     bind_result (py_pow 10 (gain / 40)) (\<lambda>A'.
     let A = Fin A'
     in
     if 0 \<le> gain then
       Inr ((fadd (Fin 1) (fmul alpha A), Fin (- 2 * cos w0), fsub (Fin 1) (fmul alpha A)),
            (fadd (Fin 1) (fdiv alpha A), Fin (- 2 * cos w0), fsub (Fin 1) (fdiv alpha A)))
     else
       Inr ((fsub (Fin 1) (fdiv alpha A), Fin (- 2 * cos w0), fadd (Fin 1) (fdiv alpha A)),
            (fadd (Fin 1) (fmul alpha A), Fin (- 2 * cos w0), fsub (Fin 1) (fmul alpha A)))))"

text \<open>The first loop, over \<^verbatim>\<open>range(len(eq_params) // 3)\<close>, collects the bands.\<close>

fun equalizer_bands :: "real \<Rightarrow> real list \<Rightarrow> nat list \<Rightarrow> error + (coeffs \<times> coeffs) list" where
  "equalizer_bands sr eq_params [] = Inr []"
| "equalizer_bands sr eq_params (i # rest) =
     bind_result (biquad sr (eq_params ! (i * 3)) (eq_params ! (i * 3 + 1))
                    (eq_params ! (i * 3 + 2))) (\<lambda>ba.
     bind_result (equalizer_bands sr eq_params rest) (\<lambda>biquads.
     Inr (ba # biquads)))"

text \<open>The second loop filters a copy of the audio through each band in turn.\<close>

fun cascade :: "(coeffs \<times> coeffs) list \<Rightarrow> fval list \<Rightarrow> error + fval list" where
  "cascade [] filtered_audio = Inr filtered_audio"
| "cascade ((b, a) # rest) filtered_audio =
     bind_result (lfilter b a filtered_audio) (cascade rest)"

definition equalizer :: "real list \<Rightarrow> real \<Rightarrow> real list \<Rightarrow> bool \<Rightarrow> error + fval list" where
  "equalizer audio sr eq_params on =
     (if on then
        bind_result (equalizer_bands sr eq_params [0..<length eq_params div 3]) (\<lambda>biquads.
        cascade biquads (map Fin audio))
      else Inr (map Fin audio))"


section \<open>The stages on a heap of arrays\<close>

text \<open>
  Whether a stage writes to the array it is given shows only in a model where arrays
  have an identity. Here every array of samples lives in a heap, a list of arrays; a
  reference is an index into it. Creating an array appends it to the heap and yields its
  reference; an operation in place replaces the array at a reference. A stage takes the
  heap and the reference of its argument, and returns its outcome (an error, or the
  reference of the array it returns) with the heap it leaves. Samples are floats here,
  finite or not, and every stage is its source again, statement by statement, with each
  array bound to a name, copied or returned created on the heap. Coefficient arrays and
  the values of nested expressions stay values.
\<close>

type_synonym heap = "fval list list"
type_synonym 'a outcome = "(error + 'a) \<times> heap"

definition bind_heap :: "'a outcome \<Rightarrow> ('a \<Rightarrow> heap \<Rightarrow> 'b outcome) \<Rightarrow> 'b outcome" where
  "bind_heap m f = (case m of (Inl e, h) \<Rightarrow> (Inl e, h) | (Inr v, h) \<Rightarrow> f v h)"

definition new_array :: "heap \<Rightarrow> fval list \<Rightarrow> ref outcome" where
  "new_array h xs = (Inr (length h), h @ [xs])"

text \<open>\<^verbatim>\<open>np.linspace\<close> and \<^verbatim>\<open>lfilter\<close> return a new array.\<close>

definition new_linspace :: "heap \<Rightarrow> real \<Rightarrow> real \<Rightarrow> int \<Rightarrow> bool \<Rightarrow> ref outcome" where
  "new_linspace h start stop num endpoint =
     (case np_linspace start stop num endpoint of
        Inl e \<Rightarrow> (Inl e, h)
      | Inr vs \<Rightarrow> new_array h (map Fin vs))"

definition lfilter_h :: "heap \<Rightarrow> coeffs \<Rightarrow> coeffs \<Rightarrow> ref \<Rightarrow> ref outcome" where
  "lfilter_h h b a x =
     (case lfilter b a (h ! x) of
        Inl e \<Rightarrow> (Inl e, h)
      | Inr ys \<Rightarrow> new_array h ys)"

text \<open>
  The operations in place: \<^verbatim>\<open>xs[start:stop] = vs\<close>, \<^verbatim>\<open>xs[start:stop] = c\<close> and
  \<^verbatim>\<open>xs /= d\<close> write to the array at the reference \<open>xs\<close>.
\<close>

definition assign_slice ::
  "heap \<Rightarrow> ref \<Rightarrow> int option \<Rightarrow> int option \<Rightarrow> fval list \<Rightarrow> unit outcome" where
  "assign_slice h xs start stop vs =
     (case slice_assign (h ! xs) start stop vs of
        Inl e \<Rightarrow> (Inl e, h)
      | Inr ys \<Rightarrow> (Inr (), h[xs := ys]))"

definition fill_slice ::
  "heap \<Rightarrow> ref \<Rightarrow> int option \<Rightarrow> int option \<Rightarrow> fval \<Rightarrow> unit outcome" where
  "fill_slice h xs start stop c = (Inr (), h[xs := slice_fill (h ! xs) start stop c])"

definition divide_in_place :: "heap \<Rightarrow> ref \<Rightarrow> fval \<Rightarrow> unit outcome" where
  "divide_in_place h xs d = (Inr (), h[xs := map (\<lambda>v. fdiv v d) (h ! xs)])"

definition adsr_envelope_h ::
  "heap \<Rightarrow> ref \<Rightarrow> real \<Rightarrow> real \<Rightarrow> real \<Rightarrow> real \<Rightarrow> real \<Rightarrow> real \<Rightarrow> bool \<Rightarrow> ref outcome" where
  "adsr_envelope_h h audio len sr attack decay sustain release on =
     (if on then
        let total_samples = length (h ! audio);
            max_attack_samples = np_round (len * sr / 4);
            max_decay_samples = np_round (len * sr / 4);
            attack_samples0 = np_round (attack * sr);
            decay_samples0 = np_round (decay * sr);
            release_samples = np_round (release * sr);
            attack_samples = min attack_samples0 max_attack_samples;
            decay_samples = min decay_samples0 max_decay_samples
        in
        bind_heap (new_array h (replicate total_samples (Fin 0))) (\<lambda>envelope h.
        bind_heap (new_linspace h 0 1 attack_samples False) (\<lambda>attack_values h.
        bind_heap (assign_slice h envelope None (Some attack_samples) (h ! attack_values)) (\<lambda>_ h.
        bind_heap (new_linspace h 1 sustain decay_samples False) (\<lambda>decay_values h.
        bind_heap (assign_slice h envelope (Some attack_samples)
                     (Some (attack_samples + decay_samples)) (h ! decay_values)) (\<lambda>_ h.
        bind_heap (fill_slice h envelope (Some (attack_samples + decay_samples))
                     (Some (int total_samples - release_samples)) (Fin sustain)) (\<lambda>_ h.
        bind_heap (new_linspace h sustain 0 release_samples True) (\<lambda>release_values h.
        bind_heap (assign_slice h envelope (Some (- release_samples)) None
                     (h ! release_values)) (\<lambda>_ h.
        new_array h (map2 fmul (h ! audio) (h ! envelope))))))))))
      else (Inr audio, h))"

definition filter_envelope_h ::
  "butter_design \<Rightarrow> heap \<Rightarrow> ref \<Rightarrow> real \<Rightarrow> real \<Rightarrow> real \<Rightarrow> real \<Rightarrow> real \<Rightarrow> bool \<Rightarrow> ref outcome" where
  "filter_envelope_h butter h audio len sr freq_cutoff freq_start freq_end on =
     (if on then
        let total_samples = length (h ! audio)
        in
        bind_heap (new_linspace h freq_start freq_end (int total_samples) True) (\<lambda>envelope h.
        bind_heap (py_div freq_cutoff (sr / 2), h) (\<lambda>wn h.
        bind_heap (butter wn Low, h) (\<lambda>(b, a) h.
        bind_heap (lfilter_h h (fin3 b) (fin3 a) envelope) (\<lambda>filtered_envelope h.
        bind_heap (np_max (map fabs (h ! filtered_envelope)), h) (\<lambda>peak h.
        bind_heap (divide_in_place h filtered_envelope peak) (\<lambda>_ h.
        new_array h (map2 fmul (h ! audio) (h ! filtered_envelope))))))))
      else (Inr audio, h))"

definition lowpass_filter_h ::
  "butter_design \<Rightarrow> heap \<Rightarrow> ref \<Rightarrow> real \<Rightarrow> real \<Rightarrow> real \<Rightarrow> bool \<Rightarrow> ref outcome" where
  "lowpass_filter_h butter h audio cutoff resonance sr on =
     (if on then
        let nyq = 0.5 * sr
        in
        bind_heap (py_div cutoff nyq, h) (\<lambda>normalized_cutoff h.
        bind_heap (butter normalized_cutoff Low, h) (\<lambda>(b, a) h.
        bind_heap (lfilter_h h (fin3 b) (fin3 a) audio) (\<lambda>filtered_audio h.
        new_array h (map (\<lambda>v. fmul v (Fin resonance)) (h ! filtered_audio)))))
      else (Inr audio, h))"

definition highpass_filter_h ::
  "butter_design \<Rightarrow> heap \<Rightarrow> ref \<Rightarrow> real \<Rightarrow> real \<Rightarrow> real \<Rightarrow> bool \<Rightarrow> ref outcome" where
  "highpass_filter_h butter h audio cutoff resonance sr on =
     (if on then
        let nyq = 0.5 * sr
        in
        bind_heap (py_div cutoff nyq, h) (\<lambda>normalized_cutoff h.
        bind_heap (butter normalized_cutoff High, h) (\<lambda>(b, a) h.
        bind_heap (lfilter_h h (fin3 b) (fin3 a) audio) (\<lambda>filtered_audio h.
        new_array h (map (\<lambda>v. fmul v (Fin resonance)) (h ! filtered_audio)))))
      else (Inr audio, h))"

text \<open>
  In \<open>compressor\<close> an argument of the call of \<open>adsr_envelope\<close> is a reference, a number
  or a truth value; the root mean square is taken of floats, where the mean of no
  samples is \<open>0 / 0\<close>. The assignment \<^verbatim>\<open>audio = audio * (...)\<close> binds the local name to
  a new array.
\<close>

datatype pyarg = ArgRef ref | ArgNum real | ArgBool bool

definition adsr_envelope_call_h :: "heap \<Rightarrow> pyarg list \<Rightarrow> ref outcome" where
  "adsr_envelope_call_h h args =
     (if length args < 8 then
        (Inl (TypeError ''adsr_envelope() missing required positional arguments''), h)
      else if 8 < length args then
        (Inl (TypeError ''adsr_envelope() takes 8 positional arguments but more were given''), h)
      else
        (case args of
           [ArgRef audio, ArgNum len, ArgNum sr, ArgNum attack, ArgNum decay, ArgNum sustain,
            ArgNum release, ArgBool on] \<Rightarrow>
             adsr_envelope_h h audio len sr attack decay sustain release on
         | _ \<Rightarrow> (Inl (TypeError ''argument of an unexpected type''), h)))"

fun fsqrt :: "fval \<Rightarrow> fval" where
  "fsqrt (Fin x) = (if x < 0 then NaN else Fin (sqrt x))"
| "fsqrt PInf = PInf"
| "fsqrt NInf = NaN"
| "fsqrt NaN = NaN"

definition np_mean :: "fval list \<Rightarrow> fval" where
  "np_mean xs = fdiv (fold fadd xs (Fin 0)) (Fin (real (length xs)))"

definition compressor_h ::
  "heap \<Rightarrow> ref \<Rightarrow> real \<Rightarrow> real \<Rightarrow> real \<Rightarrow> real \<Rightarrow> bool \<Rightarrow> ref outcome" where
  "compressor_h h audio threshold ratio attack release on =
     (if on then
        let rms = fsqrt (np_mean (map (\<lambda>x. fmul x x) (h ! audio)))
        in
        if fgreater rms threshold then
          bind_heap (adsr_envelope_call_h h
                       [ArgNum (real (length (h ! audio))), ArgNum 44100, ArgNum attack,
                        ArgNum 0, ArgNum 1, ArgNum release]) (\<lambda>env h.
          let gain_reduction =
                fdiv (fsub rms (Fin threshold))
                     (fadd (fsub (fmul rms (Fin ratio)) (Fin threshold)) (Fin float_eps))
          in new_array h (map2 (\<lambda>x e. fmul x (fsub (Fin 1) (fmul e gain_reduction)))
                            (h ! audio) (h ! env)))
        else (Inr audio, h)
      else (Inr audio, h))"

definition distortion_h :: "heap \<Rightarrow> ref \<Rightarrow> real \<Rightarrow> bool \<Rightarrow> ref outcome" where
  "distortion_h h audio threshold on =
     (if on then
        new_array h (map (\<lambda>x. fmul (ftanh (fdiv x (Fin threshold))) (Fin threshold)) (h ! audio))
      else (Inr audio, h))"

text \<open>
  In \<open>equalizer\<close>, \<^verbatim>\<open>audio.copy()\<close> is a new array, and each pass of the second loop
  binds \<open>filtered_audio\<close> to the new array that \<^verbatim>\<open>lfilter\<close> returns.
\<close>

fun cascade_h :: "heap \<Rightarrow> (coeffs \<times> coeffs) list \<Rightarrow> ref \<Rightarrow> ref outcome" where
  "cascade_h h [] filtered_audio = (Inr filtered_audio, h)"
| "cascade_h h ((b, a) # rest) filtered_audio =
     (case lfilter_h h b a filtered_audio of
        (Inl e, h') \<Rightarrow> (Inl e, h')
      | (Inr filtered_audio', h') \<Rightarrow> cascade_h h' rest filtered_audio')"

definition equalizer_h :: "heap \<Rightarrow> ref \<Rightarrow> real \<Rightarrow> real list \<Rightarrow> bool \<Rightarrow> ref outcome" where
  "equalizer_h h audio sr eq_params on =
     (if on then
        bind_heap (equalizer_bands sr eq_params [0..<length eq_params div 3], h) (\<lambda>biquads h.
        bind_heap (new_array h (h ! audio)) (\<lambda>filtered_audio h.
        cascade_h h biquads filtered_audio))
      else (Inr audio, h))"

text \<open>
  A stage on lists and the same stage on the heap agree when both raise the same error, or
  the array at the reference returned holds the samples returned.
\<close>

definition agrees :: "error + fval list \<Rightarrow> ref outcome \<Rightarrow> bool" where
  "agrees res hres =
     (case res of
        Inl e \<Rightarrow> fst hres = Inl e
      | Inr ys \<Rightarrow> (\<exists>r. fst hres = Inr r \<and> r < length (snd hres) \<and> snd hres ! r = ys))"

section \<open>Properties of the primitives\<close>

lemma np_round_zero: "np_round 0 = 0"
  by (simp add: np_round_def)

lemma one_le_float_max: "1 \<le> float_max"
proof -
  have a: "(1 :: real) \<le> 2 ^ 53 - 1" by simp
  have b: "(1 :: real) \<le> 2 ^ 971" by (rule one_le_power) simp
  have "(1 :: real) * 1 \<le> (2 ^ 53 - 1) * 2 ^ 971"
    using a b by (rule mult_mono) simp_all
  then show ?thesis by (simp only: float_max_def mult_1)
qed

lemma py_pow_zero: "py_pow 10 0 = Inr 1"
  using one_le_float_max by (simp add: py_pow_def)

lemma np_linspace_zero: "np_linspace a b 0 e = Inr []"
  by (simp add: np_linspace_def)

lemma slice_bound_le: "slice_bound i n \<le> n"
  by (auto simp: slice_bound_def nat_le_iff)

lemma slice_range_fits:
  assumes "slice_range a b n = (lo, len)"
  shows "lo \<le> n" and "lo + len \<le> n \<or> len = 0"
proof -
  have lo: "lo = (case a of None \<Rightarrow> 0 | Some i \<Rightarrow> slice_bound i n)"
    using assms by (simp add: slice_range_def Let_def)
  have len: "len = (case b of None \<Rightarrow> n | Some j \<Rightarrow> slice_bound j n) - lo"
    using assms by (auto simp: slice_range_def Let_def)
  show "lo \<le> n" using lo slice_bound_le by (cases a) simp_all
  have "(case b of None \<Rightarrow> n | Some j \<Rightarrow> slice_bound j n) \<le> n"
    using slice_bound_le by (cases b) simp_all
  then show "lo + len \<le> n \<or> len = 0" using len by linarith
qed

lemma length_splice:
  assumes "lo \<le> length xs" and "lo + len \<le> length xs \<or> len = 0" and "length vs = len"
  shows "length (take lo xs @ vs @ drop (lo + len) xs) = length xs"
proof -
  have "length (take lo xs) = lo" using assms(1) by simp
  moreover have "length (drop (lo + len) xs) = length xs - (lo + len)" by simp
  ultimately have "length (take lo xs @ vs @ drop (lo + len) xs) = lo + len + (length xs - (lo + len))"
    using assms(3) by simp
  also have "\<dots> = length xs" using assms(1,2) by linarith
  finally show ?thesis .
qed

lemma length_slice_fill: "length (slice_fill xs a b c) = length xs"
proof (cases "slice_range a b (length xs)")
  case (Pair lo len)
  have "length (take lo xs @ replicate len c @ drop (lo + len) xs) = length xs"
    by (rule length_splice [OF slice_range_fits [OF Pair]]) simp
  then show ?thesis
    unfolding slice_fill_def Pair by (simp only: prod.case)
qed

lemma length_slice_assign:
  assumes "slice_assign xs a b vs = Inr ys"
  shows "length ys = length xs"
proof (cases "slice_range a b (length xs)")
  case (Pair lo len)
  note fits = slice_range_fits [OF Pair]
  from assms have "ys = take lo xs @ vs @ drop (lo + len) xs \<and> length vs = len
      \<or> ys = take lo xs @ replicate len (hd vs) @ drop (lo + len) xs"
    unfolding slice_assign_def Pair by (simp split: if_splits)
  then show ?thesis
    using length_splice [OF fits, of vs] length_splice [OF fits, of "replicate len (hd vs)"]
    by auto
qed

lemma slice_assign_nil_prefix: "slice_assign xs None (Some 0) [] = Inr xs"
  by (simp add: slice_assign_def slice_range_def slice_bound_def)

lemma slice_assign_nil_mid: "slice_assign xs (Some 0) (Some 0) [] = Inr xs"
  by (simp add: slice_assign_def slice_range_def slice_bound_def)

lemma slice_assign_nil_all:
  "xs \<noteq> [] \<Longrightarrow> slice_assign xs (Some 0) None [] = Inl (ValueError ''could not broadcast input array'')"
  by (simp add: slice_assign_def slice_range_def slice_bound_def)

section \<open>The compressor above its threshold\<close>

text \<open>
  Claim C1 says that \<open>compressor\<close>, switched on and given a buffer whose root mean
  square exceeds the threshold, returns the buffer scaled by one minus the envelope times
  the gain reduction. The code does not get that far: it calls \<open>adsr_envelope\<close> with six
  positional arguments where the function has eight required parameters, so the call
  raises \<open>TypeError\<close>, for every such buffer and every setting of the other parameters.
\<close>

theorem compressor_above_threshold_raises:
  assumes "audio \<noteq> []"
    and "threshold < sqrt (sum_list (map (\<lambda>x. x ^ 2) audio) / real (length audio))"
  shows "compressor audio threshold ratio attack release True =
           Inl (TypeError ''adsr_envelope() missing required positional arguments'')"
  using assms by (simp add: compressor_def adsr_envelope_call_def)

theorem compressor_above_threshold_raises_witness:
  "[1 :: real] \<noteq> []
   \<and> (1 / 2 :: real) < sqrt (sum_list (map (\<lambda>x. x ^ 2) [1]) / real (length [1 :: real]))
   \<and> compressor [1] (1 / 2) 2 0 0 True =
       Inl (TypeError ''adsr_envelope() missing required positional arguments'')"
  using compressor_above_threshold_raises [of "[1]" "1 / 2" 2 0 0] by simp

section \<open>The envelope with all times zero\<close>

text \<open>
  Claim C2 says that \<open>adsr_envelope\<close> with attack, decay and release \<open>0\<close>, sustain
  \<open>1\<close> and \<open>on = True\<close> returns a non-empty buffer unchanged. In the code the release
  phase is written through the slice \<^verbatim>\<open>envelope[-release_samples:]\<close>; with
  \<open>release_samples = 0\<close> that slice is \<^verbatim>\<open>envelope[0:]\<close>, the whole envelope, and the
  empty array of release values cannot be broadcast into it. For every non-empty buffer and
  every positive sample rate the call raises \<open>ValueError\<close> instead of returning.
\<close>

theorem adsr_envelope_zero_times_raises:
  assumes "audio \<noteq> []" and "0 < sr"
  shows "\<exists>msg. adsr_envelope audio len sr 0 0 1 0 True = Inl (ValueError msg)"
proof (cases "np_round (len * sr / 4) < 0")
  case True
  then show ?thesis
    by (simp add: adsr_envelope_def np_round_zero np_linspace_def Let_def min_def)
next
  case False
  then have m: "min 0 (np_round (len * sr / 4)) = 0" by simp
  have ne: "slice_fill (replicate (length audio) 0) (Some 0) (Some (int (length audio))) 1 \<noteq> []"
    using assms(1) length_slice_fill [of "replicate (length audio) 0" "Some 0" "Some (int (length audio))" 1]
    by (metis length_0_conv length_replicate)
  show ?thesis
    unfolding adsr_envelope_def Let_def
    by (simp only: mult_zero_left np_round_zero m if_True np_linspace_zero bind_result.simps
        slice_assign_nil_prefix slice_assign_nil_mid add_0 diff_zero minus_zero
        slice_assign_nil_all [OF ne]) blast
qed

theorem adsr_envelope_zero_times_raises_witness:
  "[1 :: real] \<noteq> [] \<and> (0 :: real) < 1
   \<and> (\<exists>msg. adsr_envelope [1] 1 1 0 0 1 0 True = Inl (ValueError msg))"
  using adsr_envelope_zero_times_raises [of "[1]" 1 1] by simp

section \<open>Normalisation of a silent buffer\<close>

lemma fold_fmax_Fin: "fold fmax (map Fin xs) (Fin x) = Fin (fold max xs x)"
  by (induction xs arbitrary: x) simp_all

lemma np_max_abs_Fin:
  assumes "audio \<noteq> []"
  shows "np_max (map (\<lambda>x. fabs (Fin x)) audio) = Inr (Fin (Max (set (map abs audio))))"
proof -
  obtain x xs where a: "audio = x # xs" using assms by (cases audio) auto
  have "map (\<lambda>x. fabs (Fin x)) xs = map Fin (map abs xs)" by simp
  then have "np_max (map (\<lambda>x. fabs (Fin x)) audio) = Inr (Fin (fold max (map abs xs) \<bar>x\<bar>))"
    unfolding a np_max_def by (simp only: list.map list.case fabs.simps fold_fmax_Fin)
  moreover have "Max (set (map abs audio)) = fold max (map abs xs) \<bar>x\<bar>"
    unfolding a by (simp only: list.map Max.set_eq_fold)
  ultimately show ?thesis by simp
qed

lemma peak_zero_all_zero:
  assumes "Max (set (map abs audio)) = (0::real)" and "x \<in> set audio"
  shows "x = 0"
proof -
  have "\<bar>x\<bar> \<in> set (map abs audio)" using assms(2) by simp
  then have "\<bar>x\<bar> \<le> Max (set (map abs audio))" by (intro Max_ge) simp_all
  then show ?thesis using assms(1) by simp
qed

lemma normalize_audio_nonempty:
  assumes "audio \<noteq> []"
  shows "normalize_audio audio =
           Inr (map (\<lambda>x. fdiv (Fin x) (Fin (Max (set (map abs audio))))) audio)"
  unfolding normalize_audio_def np_max_abs_Fin [OF assms] by (simp only: bind_result.simps)

text \<open>
  Claim C3 says that \<open>normalize_audio\<close> fails exactly when the peak absolute value of
  the buffer is \<open>0\<close>. The code has no such check: the division is numpy's, and on a
  buffer of zeros it returns NaN for every sample instead of raising.
\<close>

theorem normalize_audio_silent_counterexample:
  "Max (set (map abs [0 :: real])) = 0 \<and> normalize_audio [0] = Inr [NaN]"
  by (simp add: normalize_audio_def np_max_def inf_of_sign_def)

text \<open>
  Claim C3, amended: \<open>normalize_audio\<close> fails exactly when the buffer is empty (the
  maximum of an empty array raises \<open>ValueError\<close>); for every buffer with a nonzero peak
  it returns the buffer divided by that peak; for a non-empty buffer of zeros it returns
  NaN for every sample.
\<close>

theorem normalize_audio_outcome:
  "((\<exists>e. normalize_audio audio = Inl e) \<longleftrightarrow> audio = [])
   \<and> (audio \<noteq> [] \<and> Max (set (map abs audio)) \<noteq> 0 \<longrightarrow>
        normalize_audio audio = Inr (map (\<lambda>x. Fin (x / Max (set (map abs audio)))) audio))
   \<and> (audio \<noteq> [] \<and> Max (set (map abs audio)) = 0 \<longrightarrow>
        normalize_audio audio = Inr (replicate (length audio) NaN))"
proof (intro conjI impI)
  show "(\<exists>e. normalize_audio audio = Inl e) \<longleftrightarrow> audio = []"
  proof (cases "audio = []")
    case True
    then show ?thesis by (simp add: normalize_audio_def np_max_def)
  next
    case False
    then show ?thesis by (simp add: normalize_audio_nonempty)
  qed
next
  assume "audio \<noteq> [] \<and> Max (set (map abs audio)) \<noteq> 0"
  then show "normalize_audio audio = Inr (map (\<lambda>x. Fin (x / Max (set (map abs audio)))) audio)"
    by (simp add: normalize_audio_nonempty)
next
  assume h: "audio \<noteq> [] \<and> Max (set (map abs audio)) = 0"
  then have "\<forall>x \<in> set audio. x = 0" using peak_zero_all_zero by blast
  then have "map (\<lambda>x. fdiv (Fin x) (Fin 0)) audio = replicate (length audio) NaN"
    by (simp add: map_replicate_const [symmetric] inf_of_sign_def cong: map_cong)
  then show "normalize_audio audio = Inr (replicate (length audio) NaN)"
    using h by (simp add: normalize_audio_nonempty)
qed

theorem normalize_audio_outcome_witness:
  "((\<exists>e. normalize_audio [] = Inl e) \<longleftrightarrow> ([] :: real list) = [])
   \<and> normalize_audio [1, - 2] = Inr [Fin (1 / 2), Fin (- 1)]
   \<and> normalize_audio [0, 0] = Inr [NaN, NaN]"
  using normalize_audio_outcome [of "[]"] normalize_audio_outcome [of "[1, - 2]"]
    normalize_audio_outcome [of "[0, 0]"]
  by simp

section \<open>The oscillator: errors and buffer length\<close>

lemma np_linspace_ok: "0 \<le> n \<Longrightarrow> \<exists>t. np_linspace a b n e = Inr t \<and> int (length t) = n"
  by (auto simp: np_linspace_def Let_def)

lemma np_linspace_neg:
  "n < 0 \<Longrightarrow> np_linspace a b n e = Inl (ValueError ''Number of samples must be non-negative'')"
  by (simp add: np_linspace_def)

lemma py_int_pos: "0 < len \<Longrightarrow> 0 < sr \<Longrightarrow> py_int (len * sr) = \<lfloor>len * sr\<rfloor> \<and> 0 \<le> py_int (len * sr)"
  by (simp add: py_int_def)

lemma pwm_wave_ok:
  assumes "0 \<le> py_int (len * sr)"
  shows "\<exists>buf. pwm_wave freq len sr d = Inr buf \<and> int (length buf) = py_int (len * sr)"
proof -
  from np_linspace_ok [OF assms] obtain t
    where "np_linspace 0 len (py_int (len * sr)) False = Inr t"
      and "int (length t) = py_int (len * sr)" by blast
  then show ?thesis by (simp add: pwm_wave_def)
qed

lemma white_noise_ok:
  assumes "0 \<le> py_int (len * sr)"
  shows "\<exists>buf. white_noise rnd len sr = Inr buf \<and> int (length buf) = py_int (len * sr)"
  using assms by (simp add: white_noise_def Let_def)

lemma oscillator_ok:
  assumes "osc_type \<in> set oscillator_types" and "0 \<le> py_int (len * sr)"
  shows "\<exists>buf. oscillator rnd freq len sr osc_type fm_index fm_freq = Inr buf
               \<and> int (length buf) = py_int (len * sr)"
proof -
  from np_linspace_ok [OF assms(2)] obtain t
    where t: "np_linspace 0 len (py_int (len * sr)) False = Inr t"
      "int (length t) = py_int (len * sr)" by blast
  from assms(1) consider "osc_type = ''pwm''" | "osc_type = ''noise''"
    | "osc_type \<noteq> ''pwm''" "osc_type \<noteq> ''noise''" "osc_type \<in> set oscillator_types" by blast
  then show ?thesis
  proof cases
    case 1
    then show ?thesis using pwm_wave_ok [OF assms(2)] t by (simp add: oscillator_def)
  next
    case 2
    then show ?thesis using white_noise_ok [OF assms(2)] t by (simp add: oscillator_def)
  next
    case 3
    then show ?thesis using t unfolding oscillator_def oscillator_types_def
      by (auto simp del: map_map)
  qed
qed

lemma oscillator_negative_count:
  assumes "py_int (len * sr) < 0"
  shows "oscillator rnd freq len sr osc_type fm_index fm_freq =
           Inl (ValueError ''Number of samples must be non-negative'')"
  by (simp add: oscillator_def np_linspace_neg [OF assms])

lemma oscillator_unknown_type:
  assumes "osc_type \<notin> set oscillator_types" and "0 \<le> py_int (len * sr)"
  shows "oscillator rnd freq len sr osc_type fm_index fm_freq =
           Inl (ValueError (''Invalid oscillator type '' @ [CHR 0x27] @ osc_type @ [CHR 0x27]))"
proof -
  from np_linspace_ok [OF assms(2)] obtain t
    where t: "np_linspace 0 len (py_int (len * sr)) False = Inr t" by blast
  from assms(1) show ?thesis
    unfolding oscillator_def t oscillator_types_def by simp
qed

text \<open>
  Claim C4 says that \<open>oscillator\<close> signals an error whenever the duration or the sample
  rate is not strictly positive. The code checks neither: with a duration of \<open>0\<close> the
  time axis is empty and a recognised type returns the empty buffer.
\<close>

theorem oscillator_zero_duration_counterexample:
  "oscillator (\<lambda>i. 0) 440 0 44100 ''sine'' 0 0 = Inr []"
  by (simp add: oscillator_def np_linspace_def py_int_def)

text \<open>
  Claim C4, amended: \<open>oscillator\<close> raises \<open>ValueError\<close> for every unrecognised type
  string (the error of the last branch, or the error of the time axis when the number of
  samples \<open>int(length * sr)\<close> is negative); for a recognised type it raises exactly when
  that number of samples is negative, so a zero duration or sample rate gives an empty
  buffer and no error; for a recognised type with positive duration and sample rate it
  succeeds. Parameters are finite numbers here.
\<close>

theorem oscillator_errors:
  "(osc_type \<notin> set oscillator_types \<longrightarrow>
      oscillator rnd freq len sr osc_type fm_index fm_freq =
        Inl (ValueError (if py_int (len * sr) < 0 then ''Number of samples must be non-negative''
                         else ''Invalid oscillator type '' @ [CHR 0x27] @ osc_type @ [CHR 0x27])))
   \<and> (osc_type \<in> set oscillator_types \<longrightarrow>
        ((\<exists>e. oscillator rnd freq len sr osc_type fm_index fm_freq = Inl e)
           \<longleftrightarrow> py_int (len * sr) < 0))
   \<and> (osc_type \<in> set oscillator_types \<and> 0 < len \<and> 0 < sr \<longrightarrow>
        (\<exists>buf. oscillator rnd freq len sr osc_type fm_index fm_freq = Inr buf))"
proof (intro conjI impI)
  assume "osc_type \<notin> set oscillator_types"
  then show "oscillator rnd freq len sr osc_type fm_index fm_freq =
        Inl (ValueError (if py_int (len * sr) < 0 then ''Number of samples must be non-negative''
                         else ''Invalid oscillator type '' @ [CHR 0x27] @ osc_type @ [CHR 0x27]))"
    using oscillator_negative_count [of len sr rnd freq osc_type fm_index fm_freq]
      oscillator_unknown_type [of osc_type len sr rnd freq fm_index fm_freq]
    by (cases "py_int (len * sr) < 0") simp_all
next
  assume known: "osc_type \<in> set oscillator_types"
  show "(\<exists>e. oscillator rnd freq len sr osc_type fm_index fm_freq = Inl e)
          \<longleftrightarrow> py_int (len * sr) < 0"
  proof (cases "py_int (len * sr) < 0")
    case True
    then show ?thesis by (simp add: oscillator_negative_count)
  next
    case False
    then have "0 \<le> py_int (len * sr)" by simp
    from oscillator_ok [OF known this, of rnd freq fm_index fm_freq] False
    show ?thesis by auto
  qed
next
  assume h: "osc_type \<in> set oscillator_types \<and> 0 < len \<and> 0 < sr"
  then have "0 \<le> py_int (len * sr)" using py_int_pos by blast
  from oscillator_ok [OF _ this, of osc_type rnd freq fm_index fm_freq] h
  show "\<exists>buf. oscillator rnd freq len sr osc_type fm_index fm_freq = Inr buf" by blast
qed

theorem oscillator_errors_witness:
  "''chirp'' \<notin> set oscillator_types
   \<and> oscillator (\<lambda>i. 0) 440 1 4 ''chirp'' 0 0 = Inl (ValueError (''Invalid oscillator type '' @ [CHR 0x27] @ ''chirp'' @ [CHR 0x27]))
   \<and> ''sine'' \<in> set oscillator_types
   \<and> py_int (- 1 * 4) < 0
   \<and> (\<exists>e. oscillator (\<lambda>i. 0) 440 (- 1) 4 ''sine'' 0 0 = Inl e)
   \<and> (0 :: real) < 1 \<and> (0 :: real) < 4
   \<and> (\<exists>buf. oscillator (\<lambda>i. 0) 440 1 4 ''sine'' 0 0 = Inr buf)"
  using oscillator_errors [of "''chirp''" "\<lambda>i. 0" 440 1 4 0 0]
    oscillator_errors [of "''sine''" "\<lambda>i. 0" 440 "- 1" 4 0 0]
    oscillator_errors [of "''sine''" "\<lambda>i. 0" 440 1 4 0 0]
  by (simp add: oscillator_types_def py_int_def)

text \<open>
  Claim C9: for every supported oscillator type, every duration \<open>> 0\<close> and every sample
  rate \<open>> 0\<close>, \<open>oscillator\<close> returns a buffer of exactly \<open>\<lfloor>duration * sample_rate\<rfloor>\<close>
  samples; so do the helper generators \<open>pwm_wave\<close> and \<open>white_noise\<close>, to which the
  types \<open>pwm\<close> and \<open>noise\<close> delegate.
\<close>

theorem oscillator_length:
  assumes "0 < len" and "0 < sr"
  shows "(osc_type \<in> set oscillator_types \<longrightarrow>
            (\<exists>buf. oscillator rnd freq len sr osc_type fm_index fm_freq = Inr buf
                   \<and> int (length buf) = \<lfloor>len * sr\<rfloor>))
         \<and> (\<exists>buf. pwm_wave freq len sr duty_cycle = Inr buf \<and> int (length buf) = \<lfloor>len * sr\<rfloor>)
         \<and> (\<exists>buf. white_noise rnd len sr = Inr buf \<and> int (length buf) = \<lfloor>len * sr\<rfloor>)"
proof -
  have p: "py_int (len * sr) = \<lfloor>len * sr\<rfloor>" "0 \<le> py_int (len * sr)"
    using py_int_pos [OF assms] by blast+
  show ?thesis
    using oscillator_ok [OF _ p(2), of osc_type rnd freq fm_index fm_freq]
      pwm_wave_ok [OF p(2), of freq duty_cycle] white_noise_ok [OF p(2), of rnd]
    unfolding p(1) by blast
qed

theorem oscillator_length_witness:
  "(0 :: real) < 1 / 100 \<and> (0 :: real) < 1000
   \<and> ''square'' \<in> set oscillator_types
   \<and> (\<exists>buf. oscillator (\<lambda>i. 0) 100 (1 / 100) 1000 ''square'' 0 0 = Inr buf \<and> int (length buf) = 10)
   \<and> (\<exists>buf. pwm_wave 100 (1 / 100) 1000 (1 / 2) = Inr buf \<and> int (length buf) = 10)
   \<and> (\<exists>buf. white_noise (\<lambda>i. 0) (1 / 100) 1000 = Inr buf \<and> int (length buf) = 10)"
  using oscillator_length [of "1 / 100" 1000 "''square''" "\<lambda>i. 0" 100 0 0 "1 / 2"]
  by (simp add: oscillator_types_def)

section \<open>Buffer length\<close>

lemma bind_result_InrE:
  assumes "bind_result m f = Inr y"
  obtains v where "m = Inr v" and "f v = Inr y"
  using assms by (cases m) simp_all

lemma length_np_linspace:
  "np_linspace a b n e = Inr t \<Longrightarrow> int (length t) = n"
  by (auto simp: np_linspace_def Let_def split: if_splits)

lemma length_adsr_envelope:
  assumes "adsr_envelope audio len sr attack decay sustain release on = Inr ys"
  shows "length ys = length audio"
proof (cases on)
  case False
  with assms show ?thesis by (simp add: adsr_envelope_def)
next
  case True
  with assms show ?thesis
    unfolding adsr_envelope_def Let_def
    by (auto elim!: bind_result_InrE dest!: length_slice_assign simp: length_slice_fill)
qed

lemma length_lfilter_run: "length (lfilter_run b a z0 z1 x) = length x"
  by (induction b a z0 z1 x rule: lfilter_run.induct) (simp_all add: Let_def)

lemma length_lfilter: "lfilter b a x = Inr y \<Longrightarrow> length y = length x"
  by (auto simp: lfilter_def length_lfilter_run split: prod.splits if_splits)

lemma length_cascade: "cascade bs x = Inr y \<Longrightarrow> length y = length x"
proof (induction bs arbitrary: x)
  case Nil
  then show ?case by simp
next
  case (Cons ba bs)
  obtain b a where ba: "ba = (b, a)" by (cases ba)
  from Cons.prems obtain v where "lfilter b a x = Inr v" "cascade bs v = Inr y"
    unfolding ba by (auto elim: bind_result_InrE)
  then show ?case using Cons.IH length_lfilter by fastforce
qed

lemma length_equalizer: "equalizer audio sr eq_params on = Inr y \<Longrightarrow> length y = length audio"
  by (auto simp: equalizer_def elim!: bind_result_InrE dest!: length_cascade split: if_splits)

lemma length_lowpass_filter:
  "lowpass_filter butter audio cutoff resonance sr on = Inr y \<Longrightarrow> length y = length audio"
  by (auto simp: lowpass_filter_def Let_def elim!: bind_result_InrE dest!: length_lfilter
      split: if_splits)

lemma length_highpass_filter:
  "highpass_filter butter audio cutoff resonance sr on = Inr y \<Longrightarrow> length y = length audio"
  by (auto simp: highpass_filter_def Let_def elim!: bind_result_InrE dest!: length_lfilter
      split: if_splits)

lemma length_filter_envelope:
  assumes "filter_envelope butter audio len sr freq_cutoff freq_start freq_end on = Inr y"
  shows "length y = length audio"
proof (cases on)
  case False
  with assms show ?thesis by (auto simp: filter_envelope_def)
next
  case True
  with assms show ?thesis
    unfolding filter_envelope_def Let_def
    by (auto elim!: bind_result_InrE dest!: length_lfilter length_np_linspace)
qed

lemma length_compressor:
  "compressor audio threshold ratio attack release on = Inr y \<Longrightarrow> length y = length audio"
  by (auto simp: compressor_def Let_def adsr_envelope_call_def split: if_splits)

lemma length_distortion: "length (distortion audio threshold on) = length audio"
  by (simp add: distortion_def)

lemma np_index_InrD: "np_index i n = Inr j \<Longrightarrow> j < n"
  by (auto simp: np_index_def split: if_splits)

lemma np_index_nat: "np_index (int i) n = Inr j \<Longrightarrow> j = i"
  by (auto simp: np_index_def split: if_splits)

text \<open>
  The loop of \<open>reverb\<close> keeps the length of both arrays, and writes to the audio array
  below the length of the delay line only: reading the line at an index from its length
  on raises.
\<close>

lemma reverb_loop_frame:
  assumes "reverb_loop d decay idx (buffer, audio) = (r, buffer', audio')"
  shows "length audio' = length audio \<and> length buffer' = length buffer
         \<and> (\<forall>j. length buffer \<le> j \<longrightarrow> audio' ! j = audio ! j)"
  using assms
proof (induction idx arbitrary: buffer audio)
  case Nil
  then show ?case by simp
next
  case (Cons i rest)
  show ?case
  proof (cases "np_index (int i) (length buffer)")
    case (Inl e)
    with Cons.prems show ?thesis by simp
  next
    case j: (Inr j)
    then have ji: "j = i" and jl: "i < length buffer"
      using np_index_nat np_index_InrD by blast+
    show ?thesis
    proof (cases "np_index (int i + d) (length buffer)")
      case (Inl e)
      with Cons.prems j show ?thesis by simp
    next
      case k: (Inr k)
      let ?b1 = "buffer[k := buffer ! k + audio ! i]"
      let ?b2 = "?b1[j := ?b1 ! j + buffer ! j * decay]"
      let ?a = "audio[i := audio ! i + buffer ! j * decay]"
      from Cons.prems j k have "reverb_loop d decay rest (?b2, ?a) = (r, buffer', audio')"
        by (simp add: Let_def)
      from Cons.IH [OF this] jl show ?thesis by auto
    qed
  qed
qed

lemma reverb_on:
  "reverb s audio sr delay decay True =
     (if py_int (delay * sr) + int (length (s audio)) < 0
      then (Inl (ValueError ''negative dimensions are not allowed''), s)
      else (case reverb_loop (py_int (delay * sr)) decay [0..<length (s audio)]
                   (replicate (nat (py_int (delay * sr) + int (length (s audio)))) 0, s audio) of
              (r, buffer', audio') \<Rightarrow>
                ((case r of None \<Rightarrow> Inr audio | Some e \<Rightarrow> Inl e), s(audio := audio'))))"
  unfolding reverb_def Let_def by (simp split: prod.splits option.splits)

lemma reverb_cases:
  assumes "reverb s audio sr delay decay True = (out, s')"
  obtains (alloc) "py_int (delay * sr) + int (length (s audio)) < 0" and "s' = s"
      and "out = Inl (ValueError ''negative dimensions are not allowed'')"
  | (loop) r buffer' audio'
    where "0 \<le> py_int (delay * sr) + int (length (s audio))"
      and "reverb_loop (py_int (delay * sr)) decay [0..<length (s audio)]
             (replicate (nat (py_int (delay * sr) + int (length (s audio)))) 0, s audio)
           = (r, buffer', audio')"
      and "s' = s(audio := audio')"
      and "out = (case r of None \<Rightarrow> Inr audio | Some e \<Rightarrow> Inl e)"
proof (cases "py_int (delay * sr) + int (length (s audio)) < 0")
  case True
  with assms have "s' = s" "out = Inl (ValueError ''negative dimensions are not allowed'')"
    unfolding reverb_on by simp_all
  with True alloc show ?thesis by blast
next
  case False
  obtain r buffer' audio'
    where l: "reverb_loop (py_int (delay * sr)) decay [0..<length (s audio)]
             (replicate (nat (py_int (delay * sr) + int (length (s audio)))) 0, s audio)
           = (r, buffer', audio')"
    by (rule prod_cases3)
  from assms False have "s' = s(audio := audio')"
    and "out = (case r of None \<Rightarrow> Inr audio | Some e \<Rightarrow> Inl e)"
    unfolding reverb_on l by simp_all
  moreover from False have "0 \<le> py_int (delay * sr) + int (length (s audio))" by simp
  ultimately show ?thesis using l loop by blast
qed

lemma length_reverb:
  assumes "reverb s audio sr delay decay on = (Inr r, s')"
  shows "length (s' r) = length (s audio)"
proof (cases on)
  case False
  with assms show ?thesis by (auto simp: reverb_def)
next
  case True
  with assms have "reverb s audio sr delay decay True = (Inr r, s')" by simp
  then show ?thesis
  proof (cases rule: reverb_cases)
    case alloc
    then show ?thesis by simp
  next
    case (loop res buffer' audio')
    then have "r = audio" by (cases res) simp_all
    with loop reverb_loop_frame [OF loop(2)] show ?thesis by simp
  qed
qed

text \<open>
  Claim C6: each of the eight stage functions, whenever it returns normally, returns a
  buffer as long as its input buffer. (\<open>distortion\<close> always returns; \<open>reverb\<close> returns
  the reference of the buffer, read in the store the call leaves.)
\<close>

theorem stages_preserve_length:
  "(adsr_envelope audio len sr attack decay sustain release on = Inr y1 \<longrightarrow>
      length y1 = length audio)
   \<and> (filter_envelope butter audio len sr freq_cutoff freq_start freq_end on = Inr y2 \<longrightarrow>
        length y2 = length audio)
   \<and> (lowpass_filter butter audio cutoff resonance sr on = Inr y3 \<longrightarrow> length y3 = length audio)
   \<and> (highpass_filter butter audio cutoff resonance sr on = Inr y4 \<longrightarrow> length y4 = length audio)
   \<and> (compressor audio threshold ratio attack release on = Inr y5 \<longrightarrow> length y5 = length audio)
   \<and> (reverb s a sr delay rdecay on = (Inr r, s') \<longrightarrow> length (s' r) = length (s a))
   \<and> length (distortion audio threshold on) = length audio
   \<and> (equalizer audio sr eq_params on = Inr y8 \<longrightarrow> length y8 = length audio)"
proof (intro conjI impI)
  show "length (distortion audio threshold on) = length audio"
    by (rule length_distortion)
qed (erule length_adsr_envelope length_filter_envelope length_lowpass_filter
      length_highpass_filter length_compressor length_reverb length_equalizer)+

lemma adsr_envelope_example: "adsr_envelope [1, 1] 2 1 0 0 1 1 True = Inr [1, 1]"
  by code_simp

lemma filter_envelope_example:
  "filter_envelope (\<lambda>wn bt. Inr ((1, 0, 0), (1, 0, 0))) [1, 1] 2 1 (1 / 4) 1 2 True =
     Inr [Fin (1 / 2), Fin 1]"
  by (simp add: filter_envelope_def np_linspace_def py_div_def lfilter_def fin3_def np_max_def
      fsub_def Let_def)

lemma lowpass_filter_example:
  "lowpass_filter (\<lambda>wn bt. Inr ((1, 0, 0), (1, 0, 0))) [1, 1] (1 / 4) 3 1 True =
     Inr [Fin 3, Fin 3]"
  by (simp add: lowpass_filter_def py_div_def lfilter_def fin3_def fsub_def Let_def)

lemma highpass_filter_example:
  "highpass_filter (\<lambda>wn bt. Inr ((1, 0, 0), (1, 0, 0))) [1, 1] (1 / 4) 3 1 True =
     Inr [Fin 3, Fin 3]"
  by (simp add: highpass_filter_def py_div_def lfilter_def fin3_def fsub_def Let_def)

lemma compressor_example: "compressor [1, 1] 2 2 0 1 True = Inr [Fin 1, Fin 1]"
  by (simp add: compressor_def Let_def)

lemma reverb_example:
  "reverb (\<lambda>_. [1, 2, 3]) 0 1 1 (1 / 2) True = (Inr 0, (\<lambda>_. [1, 2, 3])(0 := [1, 5 / 2, 4]))"
  by (simp add: reverb_def py_int_def np_index_def upt_rec Let_def)

lemma equalizer_example: "equalizer [1, 1] 1 [0, 0, 1] True = Inr [Fin 1, Fin 1]"
  by (simp add: equalizer_def biquad_def py_div_def py_pow_zero lfilter_def fsub_def Let_def)

theorem stages_preserve_length_witness:
  "adsr_envelope [1, 1] 2 1 0 0 1 1 True = Inr [1, 1]
   \<and> length [1, 1 :: real] = length [1, 1 :: real]
   \<and> filter_envelope (\<lambda>wn bt. Inr ((1, 0, 0), (1, 0, 0))) [1, 1] 2 1 (1 / 4) 1 2 True =
       Inr [Fin (1 / 2), Fin 1]
   \<and> length [Fin (1 / 2), Fin 1] = length [1, 1 :: real]
   \<and> lowpass_filter (\<lambda>wn bt. Inr ((1, 0, 0), (1, 0, 0))) [1, 1] (1 / 4) 3 1 True =
       Inr [Fin 3, Fin 3]
   \<and> highpass_filter (\<lambda>wn bt. Inr ((1, 0, 0), (1, 0, 0))) [1, 1] (1 / 4) 3 1 True =
       Inr [Fin 3, Fin 3]
   \<and> length [Fin 3, Fin 3] = length [1, 1 :: real]
   \<and> compressor [1, 1] 2 2 0 1 True = Inr [Fin 1, Fin 1]
   \<and> length [Fin 1, Fin 1] = length [1, 1 :: real]
   \<and> reverb (\<lambda>_. [1, 2, 3]) 0 1 1 (1 / 2) True = (Inr 0, (\<lambda>_. [1, 2, 3])(0 := [1, 5 / 2, 4]))
   \<and> length (((\<lambda>_. [1, 2, 3 :: real])(0 := [1, 5 / 2, 4])) (0 :: nat)) = length [1, 2, 3 :: real]
   \<and> length (distortion [1, 1] 2 True) = length [1, 1 :: real]
   \<and> equalizer [1, 1] 1 [0, 0, 1] True = Inr [Fin 1, Fin 1]"
proof -
  note t = stages_preserve_length
    [where audio = "[1, 1]" and len = 2 and sr = 1 and attack = 0 and decay = 0 and sustain = 1
      and release = 1 and on = True and ?y1.0 = "[1, 1]"
      and butter = "\<lambda>wn bt. Inr ((1, 0, 0), (1, 0, 0))"
      and freq_cutoff = "1 / 4" and freq_start = 1 and freq_end = 2
      and ?y2.0 = "[Fin (1 / 2), Fin 1]"
      and cutoff = "1 / 4" and resonance = 3 and ?y3.0 = "[Fin 3, Fin 3]"
      and ?y4.0 = "[Fin 3, Fin 3]"
      and threshold = 2 and ratio = 2 and ?y5.0 = "[Fin 1, Fin 1]"
      and s = "\<lambda>_. [1, 2, 3]" and a = 0 and delay = 1 and rdecay = "1 / 2" and r = 0
      and s' = "(\<lambda>_. [1, 2, 3])(0 := [1, 5 / 2, 4])"
      and eq_params = "[0, 0, 1]" and ?y8.0 = "[Fin 1, Fin 1]"]
  have d: "length (distortion [1, 1] 2 True) = length [1, 1 :: real]"
    using t by (rule conjunct1 [OF conjunct2 [OF conjunct2 [OF conjunct2 [OF conjunct2 [OF conjunct2 [OF conjunct2]]]]]])
  have l2: "length [Fin (1 / 2), Fin 1] = length [1, 1 :: real]" by simp
  have l3: "length [Fin 3, Fin 3] = length [1, 1 :: real]" by simp
  have l5: "length [Fin 1, Fin 1] = length [1, 1 :: real]" by simp
  have l6: "length (((\<lambda>_. [1, 2, 3 :: real])(0 := [1, 5 / 2, 4])) (0 :: nat)) = length [1, 2, 3 :: real]"
    by simp
  show ?thesis
    by (intro conjI refl adsr_envelope_example filter_envelope_example lowpass_filter_example
        highpass_filter_example compressor_example reverb_example equalizer_example
        d l2 l3 l5 l6)
qed

section \<open>Reverb: the write in place\<close>

text \<open>
  With a delay of \<open>d \<ge> 0\<close> samples the delay line is long enough for every index the
  loop uses. Before step \<open>k\<close> the line holds, from index \<open>k\<close> on, the dry samples
  deposited so far, each \<open>d\<close> places late, and the audio array holds the mixed samples
  below \<open>k\<close> and the dry ones from \<open>k\<close> on. (What the loop adds back to the line at
  index \<open>k\<close> is never read again.)
\<close>

lemma np_index_in_range: "i < n \<Longrightarrow> np_index (int i) n = Inr i"
  by (simp add: np_index_def)

lemma np_index_shift: "i + d < n \<Longrightarrow> np_index (int i + int d) n = Inr (i + d)"
  by (simp add: np_index_def nat_add_distrib)

lemma reverb_loop_closed:
  fixes x :: "real list" and d :: nat and decay :: real
  defines "out \<equiv> \<lambda>i. x ! i + (if 0 < d \<and> d \<le> i then x ! (i - d) * decay else 0)"
  assumes "k \<le> length x"
    and "length buffer = length x + d"
    and "length audio = length x"
    and "\<forall>j. k \<le> j \<and> j < length x + d \<longrightarrow>
           buffer ! j = (if d \<le> j \<and> j < k + d then x ! (j - d) else 0)"
    and "\<forall>j < length x. audio ! j = (if j < k then out j else x ! j)"
  shows "\<exists>buffer'. reverb_loop (int d) decay [k..<length x] (buffer, audio)
           = (None, buffer', map out [0..<length x])"
  using assms(2-)
proof (induction "length x - k" arbitrary: k buffer audio)
  case 0
  then have k: "k = length x" by simp
  have "audio = map out [0..<length x]"
    using 0 k by (intro nth_equalityI) simp_all
  then show ?case using k by simp
next
  case (Suc n)
  then have klt: "k < length x" by simp
  let ?delayed = "buffer ! k * decay"
  let ?b1 = "buffer[k + d := buffer ! (k + d) + audio ! k]"
  let ?b2 = "?b1[k := ?b1 ! k + ?delayed]"
  let ?a = "audio[k := audio ! k + ?delayed]"
  have i1: "np_index (int k) (length buffer) = Inr k"
    using klt Suc.prems(2) by (simp add: np_index_in_range)
  have i2: "np_index (int k + int d) (length buffer) = Inr (k + d)"
    using klt Suc.prems(2) by (simp add: np_index_shift)
  have step: "reverb_loop (int d) decay [k..<length x] (buffer, audio)
      = reverb_loop (int d) decay [Suc k..<length x] (?b2, ?a)"
    using klt i1 i2 by (simp add: upt_conv_Cons Let_def)
  have bk: "buffer ! k = (if 0 < d \<and> d \<le> k then x ! (k - d) else 0)"
    using Suc.prems(4) klt by auto
  have bkd: "buffer ! (k + d) = 0"
    using Suc.prems(4) klt by auto
  have ak: "audio ! k = x ! k"
    using Suc.prems(5) klt by auto
  have a_new: "\<forall>j < length x. ?a ! j = (if j < Suc k then out j else x ! j)"
  proof (intro allI impI)
    fix j assume j: "j < length x"
    show "?a ! j = (if j < Suc k then out j else x ! j)"
    proof (cases "j = k")
      case True
      then show ?thesis using klt Suc.prems(3) ak bk by (simp add: out_def)
    next
      case False
      then show ?thesis using j Suc.prems(5) by (auto simp: less_Suc_eq)
    qed
  qed
  have b_new: "\<forall>j. Suc k \<le> j \<and> j < length x + d \<longrightarrow>
           ?b2 ! j = (if d \<le> j \<and> j < Suc k + d then x ! (j - d) else 0)"
  proof (intro allI impI)
    fix j assume j: "Suc k \<le> j \<and> j < length x + d"
    then have jk: "j \<noteq> k" by simp
    show "?b2 ! j = (if d \<le> j \<and> j < Suc k + d then x ! (j - d) else 0)"
    proof (cases "j = k + d")
      case True
      then show ?thesis using jk klt Suc.prems(2) bkd ak by simp
    next
      case False
      have "?b2 ! j = buffer ! j" using jk False by simp
      also have "\<dots> = (if d \<le> j \<and> j < k + d then x ! (j - d) else 0)"
        using Suc.prems(4) j by auto
      also have "\<dots> = (if d \<le> j \<and> j < Suc k + d then x ! (j - d) else 0)"
        using False by auto
      finally show ?thesis .
    qed
  qed
  have "\<exists>buffer'. reverb_loop (int d) decay [Suc k..<length x] (?b2, ?a)
           = (None, buffer', map out [0..<length x])"
  proof (rule Suc.hyps(1))
    show "n = length x - Suc k" using Suc.hyps(2) by simp
    show "Suc k \<le> length x" using klt by simp
    show "length ?b2 = length x + d" using Suc.prems(2) by simp
    show "length ?a = length x" using Suc.prems(3) by simp
    show "\<forall>j. Suc k \<le> j \<and> j < length x + d \<longrightarrow>
           ?b2 ! j = (if d \<le> j \<and> j < Suc k + d then x ! (j - d) else 0)" by (rule b_new)
    show "\<forall>j < length x. ?a ! j = (if j < Suc k then out j else x ! j)" by (rule a_new)
  qed
  then show ?case using step by simp
qed

lemma np_index_beyond: "n \<le> i \<Longrightarrow> \<exists>e. np_index (int i) n = Inl e"
  by (simp add: np_index_def)

lemma reverb_loop_fails:
  assumes "i \<in> set idx" and "length buffer \<le> i"
  shows "\<exists>e b a. reverb_loop d decay idx (buffer, audio) = (Some e, b, a)"
  using assms
proof (induction idx arbitrary: buffer audio)
  case Nil
  then show ?case by simp
next
  case (Cons h rest)
  show ?case
  proof (cases "np_index (int h) (length buffer)")
    case (Inl e)
    then show ?thesis by simp
  next
    case j: (Inr j)
    then have hi: "h \<noteq> i" using np_index_beyond [OF Cons.prems(2)] by auto
    with Cons.prems have mem: "i \<in> set rest" by simp
    show ?thesis
    proof (cases "np_index (int h + d) (length buffer)")
      case (Inl e)
      with j show ?thesis by simp
    next
      case k: (Inr k)
      let ?b1 = "buffer[k := buffer ! k + audio ! h]"
      let ?b2 = "?b1[j := ?b1 ! j + buffer ! j * decay]"
      let ?a = "audio[h := audio ! h + buffer ! j * decay]"
      have "length ?b2 \<le> i" using Cons.prems(2) by simp
      from Cons.IH [OF mem this, of ?a] j k show ?thesis by (simp add: Let_def)
    qed
  qed
qed

lemma reverb_closed:
  assumes "0 \<le> py_int (delay * sr)"
  shows "reverb s audio sr delay decay True =
           (Inr audio,
            s(audio := map (\<lambda>i. s audio ! i +
                 (if 0 < nat (py_int (delay * sr)) \<and> nat (py_int (delay * sr)) \<le> i
                  then s audio ! (i - nat (py_int (delay * sr))) * decay else 0))
               [0..<length (s audio)]))"
proof -
  define d where "d = nat (py_int (delay * sr))"
  have di: "py_int (delay * sr) = int d" using assms by (simp add: d_def)
  have size: "nat (int d + int (length (s audio))) = length (s audio) + d"
    by (simp add: nat_add_distrib)
  have "\<exists>buffer'. reverb_loop (int d) decay [0..<length (s audio)]
            (replicate (length (s audio) + d) 0, s audio)
          = (None, buffer', map (\<lambda>i. s audio ! i +
                 (if 0 < d \<and> d \<le> i then s audio ! (i - d) * decay else 0))
               [0..<length (s audio)])"
    by (rule reverb_loop_closed) simp_all
  then obtain buffer' where "reverb_loop (int d) decay [0..<length (s audio)]
            (replicate (length (s audio) + d) 0, s audio)
          = (None, buffer', map (\<lambda>i. s audio ! i +
                 (if 0 < d \<and> d \<le> i then s audio ! (i - d) * decay else 0))
               [0..<length (s audio)])" ..
  then show ?thesis
    unfolding reverb_on di size by (simp cong: if_cong)
qed

lemma reverb_negative_delay:
  assumes "py_int (delay * sr) < 0"
  shows "\<exists>e s'. reverb s audio sr delay decay True = (Inl e, s')"
proof (cases "py_int (delay * sr) + int (length (s audio)) < 0")
  case True
  then show ?thesis unfolding reverb_on by simp
next
  case False
  define m where "m = nat (py_int (delay * sr) + int (length (s audio)))"
  have "m < length (s audio)" using assms False by (simp add: m_def)
  then have "m \<in> set [0..<length (s audio)]" by simp
  from reverb_loop_fails [OF this, of "replicate m 0" "py_int (delay * sr)" decay "s audio"]
  obtain e b a where "reverb_loop (py_int (delay * sr)) decay [0..<length (s audio)]
      (replicate m 0, s audio) = (Some e, b, a)" by auto
  then show ?thesis using False unfolding reverb_on m_def [symmetric] by simp
qed

text \<open>
  Claim C7: \<open>reverb\<close> with \<open>on = True\<close> writes its mixed output into the caller's
  buffer. Whenever the call returns, the reference it returns is the reference it was
  given, so the returned buffer and the argument are one array with one content; the store
  it leaves differs from the store it found at that reference only, where sample \<open>i\<close>
  is now the dry sample plus \<open>decay\<close> times the dry sample \<open>d\<close> places before it. The
  call returns exactly when the number of delay samples \<open>int(delay * sr)\<close> is not
  negative.
\<close>

theorem reverb_in_place:
  "((\<exists>r s'. reverb s audio sr delay decay True = (Inr r, s')) \<longleftrightarrow> 0 \<le> py_int (delay * sr))
   \<and> (reverb s audio sr delay decay True = (Inr r, s') \<longrightarrow>
        r = audio
        \<and> s' = s(audio := map (\<lambda>i. s audio ! i +
                 (if 0 < nat (py_int (delay * sr)) \<and> nat (py_int (delay * sr)) \<le> i
                  then s audio ! (i - nat (py_int (delay * sr))) * decay else 0))
               [0..<length (s audio)]))"
proof -
  have iff: "(\<exists>r s'. reverb s audio sr delay decay True = (Inr r, s')) \<longleftrightarrow> 0 \<le> py_int (delay * sr)"
  proof
    assume "\<exists>r s'. reverb s audio sr delay decay True = (Inr r, s')"
    then show "0 \<le> py_int (delay * sr)"
      using reverb_negative_delay [of delay sr s audio decay] by (cases "0 \<le> py_int (delay * sr)") auto
  next
    assume "0 \<le> py_int (delay * sr)"
    from reverb_closed [OF this] show "\<exists>r s'. reverb s audio sr delay decay True = (Inr r, s')"
      by blast
  qed
  moreover have "reverb s audio sr delay decay True = (Inr r, s') \<longrightarrow>
        r = audio
        \<and> s' = s(audio := map (\<lambda>i. s audio ! i +
                 (if 0 < nat (py_int (delay * sr)) \<and> nat (py_int (delay * sr)) \<le> i
                  then s audio ! (i - nat (py_int (delay * sr))) * decay else 0))
               [0..<length (s audio)])"
  proof
    assume a: "reverb s audio sr delay decay True = (Inr r, s')"
    then have "0 \<le> py_int (delay * sr)" using iff by blast
    from reverb_closed [OF this, of s audio decay] a
    show "r = audio
        \<and> s' = s(audio := map (\<lambda>i. s audio ! i +
                 (if 0 < nat (py_int (delay * sr)) \<and> nat (py_int (delay * sr)) \<le> i
                  then s audio ! (i - nat (py_int (delay * sr))) * decay else 0))
               [0..<length (s audio)])" by simp
  qed
  ultimately show ?thesis by blast
qed

theorem reverb_in_place_witness:
  "0 \<le> py_int (1 * 1)
   \<and> reverb (\<lambda>_. [1, 2, 3]) 0 1 1 (1 / 2) True = (Inr 0, (\<lambda>_. [1, 2, 3])(0 := [1, 5 / 2, 4]))"
proof -
  have p: "0 \<le> py_int (1 * 1)" by (simp add: py_int_def)
  have n: "nat (py_int (1 * 1)) = 1" by (simp add: py_int_def)
  from p reverb_in_place [of "\<lambda>_. [1, 2, 3]" 0 1 1 "1 / 2"]
  obtain r s' where rs: "reverb (\<lambda>_. [1, 2, 3]) 0 1 1 (1 / 2) True = (Inr r, s')" by blast
  with reverb_in_place [of "\<lambda>_. [1, 2, 3]" 0 1 1 "1 / 2" r s']
  have "r = 0 \<and> s' = (\<lambda>_. [1, 2, 3])(0 := map (\<lambda>i. [1, 2, 3] ! i +
                 (if 0 < nat (py_int (1 * 1)) \<and> nat (py_int (1 * 1)) \<le> i
                  then [1, 2, 3] ! (i - nat (py_int (1 * 1))) * (1 / 2) else 0))
               [0..<length [1, 2, 3 :: real]])" by blast
  then have "r = 0 \<and> s' = (\<lambda>_. [1, 2, 3])(0 := [1, 5 / 2, 4])"
    unfolding n by (simp add: upt_rec)
  with rs p show ?thesis by simp
qed

lemma py_int_of_int: "py_int (of_int n) = n"
  by (simp add: py_int_def)

lemmas py_int_neg_examples =
  py_int_of_int [of "- 1", simplified] py_int_of_int [of "- 3", simplified]

lemma reverb_negative_example:
  "reverb (\<lambda>_. [1, 1, 1]) 0 1 (- 1) 1 True =
     (Inl (IndexError ''index is out of bounds for axis 0''), (\<lambda>_. [1, 1, 1])(0 := [1, 2, 1]))"
  by (simp add: reverb_def py_int_neg_examples np_index_def upt_rec Let_def)

section \<open>Failing stages and the caller's buffer\<close>

text \<open>
  On the heap, a stage other than \<open>reverb\<close> writes only to arrays it has created: the
  arrays that were on the heap before the call are the same after it.
\<close>

lemma adsr_envelope_h_frame:
  "adsr_envelope_h h audio len sr attack decay sustain release on = (out, h') \<Longrightarrow>
     take (length h) h' = h"
  by (auto simp: adsr_envelope_h_def bind_heap_def new_array_def new_linspace_def
      assign_slice_def fill_slice_def Let_def split: if_splits sum.splits)

lemma filter_envelope_h_frame:
  "filter_envelope_h butter h audio len sr freq_cutoff freq_start freq_end on = (out, h') \<Longrightarrow>
     take (length h) h' = h"
  by (auto simp: filter_envelope_h_def bind_heap_def new_array_def new_linspace_def
      lfilter_h_def divide_in_place_def Let_def split: if_splits sum.splits prod.splits)

lemma lowpass_filter_h_frame:
  "lowpass_filter_h butter h audio cutoff resonance sr on = (out, h') \<Longrightarrow>
     take (length h) h' = h"
  by (auto simp: lowpass_filter_h_def bind_heap_def new_array_def lfilter_h_def Let_def
      split: if_splits sum.splits prod.splits)

lemma highpass_filter_h_frame:
  "highpass_filter_h butter h audio cutoff resonance sr on = (out, h') \<Longrightarrow>
     take (length h) h' = h"
  by (auto simp: highpass_filter_h_def bind_heap_def new_array_def lfilter_h_def Let_def
      split: if_splits sum.splits prod.splits)

lemma compressor_h_frame:
  "compressor_h h audio threshold ratio attack release on = (out, h') \<Longrightarrow>
     take (length h) h' = h"
  by (auto simp: compressor_h_def bind_heap_def adsr_envelope_call_h_def Let_def
      split: if_splits)

lemma distortion_h_frame:
  "distortion_h h audio threshold on = (out, h') \<Longrightarrow> take (length h) h' = h"
  by (auto simp: distortion_h_def new_array_def split: if_splits)

lemma cascade_h_frame:
  "cascade_h h biquads r = (out, h') \<Longrightarrow> length h \<le> length h' \<and> take (length h) h' = h"
proof (induction biquads arbitrary: h r)
  case Nil
  then show ?case by simp
next
  case (Cons ba rest)
  obtain b a where ba: "ba = (b, a)" by (cases ba)
  show ?case
  proof (cases "lfilter b a (h ! r)")
    case (Inl e)
    with Cons.prems show ?thesis by (simp add: ba lfilter_h_def)
  next
    case (Inr ys)
    with Cons.prems have "cascade_h (h @ [ys]) rest (length h) = (out, h')"
      by (simp add: ba lfilter_h_def new_array_def)
    from Cons.IH [OF this] have "length (h @ [ys]) \<le> length h'"
      and t: "take (length (h @ [ys])) h' = h @ [ys]" by simp_all
    then have "length h \<le> length h'" by simp
    moreover have "take (length h) h' = take (length h) (take (length (h @ [ys])) h')"
      by (simp add: min_def)
    then have "take (length h) h' = h" unfolding t by simp
    ultimately show ?thesis by simp
  qed
qed

lemma equalizer_h_frame:
  "equalizer_h h audio sr eq_params on = (out, h') \<Longrightarrow> take (length h) h' = h"
proof (cases on)
  case False
  then show "equalizer_h h audio sr eq_params on = (out, h') \<Longrightarrow> take (length h) h' = h"
    by (simp add: equalizer_h_def)
next
  case True
  assume run: "equalizer_h h audio sr eq_params on = (out, h')"
  show "take (length h) h' = h"
  proof (cases "equalizer_bands sr eq_params [0..<length eq_params div 3]")
    case (Inl e)
    with run True show ?thesis by (simp add: equalizer_h_def bind_heap_def)
  next
    case (Inr biquads)
    with run True have "cascade_h (h @ [h ! audio]) biquads (length h) = (out, h')"
      by (simp add: equalizer_h_def bind_heap_def new_array_def)
    from cascade_h_frame [OF this] have t: "take (length (h @ [h ! audio])) h' = h @ [h ! audio]"
      by simp
    have "take (length h) h' = take (length h) (take (length (h @ [h ! audio])) h')"
      by (simp add: min_def)
    then show ?thesis unfolding t by simp
  qed
qed

text \<open>
  The stages on the heap are the stages on lists: on a finite buffer they raise the same
  errors and return the same samples.
\<close>

lemma slice_assign_map:
  "slice_assign (map f xs) a b (map f vs) =
     (case slice_assign xs a b vs of Inl e \<Rightarrow> Inl e | Inr ys \<Rightarrow> Inr (map f ys))"
proof (cases "slice_range a b (length xs)")
  case (Pair lo len)
  have one: "length vs = 1 \<Longrightarrow> hd (map f vs) = f (hd vs)" by (cases vs) simp_all
  show ?thesis
    unfolding slice_assign_def using Pair one
    by (simp add: take_map drop_map)
qed

lemma slice_fill_map: "slice_fill (map f xs) a b (f c) = map f (slice_fill xs a b c)"
  by (auto simp: slice_fill_def take_map drop_map split: prod.splits)

lemma map2_fmul_Fin: "map2 fmul (map Fin xs) (map Fin ys) = map Fin (map2 (*) xs ys)"
  by (induction xs arbitrary: ys) (auto simp: zip_Cons1 split: list.splits)

lemma replicate_Fin: "replicate n (Fin 0) = map Fin (replicate n 0)"
  by simp

lemma adsr_envelope_h_agrees:
  assumes "a < length h" and "h ! a = map Fin xs"
  shows "agrees (map_sum id (map Fin) (adsr_envelope xs len sr attack decay sustain release on))
           (adsr_envelope_h h a len sr attack decay sustain release on)"
proof (cases on)
  case False
  with assms show ?thesis by (simp add: agrees_def adsr_envelope_def adsr_envelope_h_def)
next
  case True
  with assms show ?thesis
    unfolding agrees_def adsr_envelope_def adsr_envelope_h_def Let_def
    by (auto simp: bind_heap_def new_array_def new_linspace_def assign_slice_def fill_slice_def
        nth_append replicate_Fin slice_assign_map slice_fill_map map2_fmul_Fin
        simp del: map_replicate
        split: sum.splits)
qed


lemma map2_fmul_left: "map2 (\<lambda>x v. fmul (Fin x) v) xs vs = map2 fmul (map Fin xs) vs"
  by (induction xs arbitrary: vs) (auto simp: zip_Cons1 split: list.splits)

lemma filter_envelope_h_agrees:
  assumes "a < length h" and "h ! a = map Fin xs"
  shows "agrees (filter_envelope butter xs len sr freq_cutoff freq_start freq_end on)
           (filter_envelope_h butter h a len sr freq_cutoff freq_start freq_end on)"
proof (cases on)
  case False
  with assms show ?thesis by (simp add: agrees_def filter_envelope_def filter_envelope_h_def)
next
  case True
  with assms show ?thesis
    unfolding agrees_def filter_envelope_def filter_envelope_h_def Let_def
    by (auto simp: bind_heap_def new_array_def new_linspace_def lfilter_h_def divide_in_place_def
        nth_append map2_fmul_left
        split: sum.splits prod.splits)
qed

lemma lowpass_filter_h_agrees:
  assumes "a < length h" and "h ! a = map Fin xs"
  shows "agrees (lowpass_filter butter xs cutoff resonance sr on)
           (lowpass_filter_h butter h a cutoff resonance sr on)"
  using assms
  unfolding agrees_def lowpass_filter_def lowpass_filter_h_def Let_def
  by (auto simp: bind_heap_def new_array_def lfilter_h_def nth_append
      split: sum.splits prod.splits)

lemma highpass_filter_h_agrees:
  assumes "a < length h" and "h ! a = map Fin xs"
  shows "agrees (highpass_filter butter xs cutoff resonance sr on)
           (highpass_filter_h butter h a cutoff resonance sr on)"
  using assms
  unfolding agrees_def highpass_filter_def highpass_filter_h_def Let_def
  by (auto simp: bind_heap_def new_array_def lfilter_h_def nth_append
      split: sum.splits prod.splits)

lemma fold_fadd_Fin: "fold fadd (map Fin ys) (Fin c) = Fin (fold (+) ys c)"
  by (induction ys arbitrary: c) (simp_all add: add.commute)

lemma fold_plus_nonneg: "\<forall>y \<in> set ys. 0 \<le> y \<Longrightarrow> 0 \<le> c \<Longrightarrow> (0 :: real) \<le> fold (+) ys c"
  by (induction ys arbitrary: c) simp_all

lemma fold_plus_sum_list: "fold (+) ys (c :: real) = sum_list ys + c"
  by (induction ys arbitrary: c) simp_all

lemma rms_Fin:
  "fsqrt (np_mean (map (\<lambda>x. fmul x x) (map Fin xs))) =
     (if xs = [] then NaN
      else Fin (sqrt (sum_list (map (\<lambda>x. x ^ 2) xs) / real (length xs))))"
proof -
  have m: "map (\<lambda>x. fmul x x) (map Fin xs) = map Fin (map (\<lambda>x. x ^ 2) xs)"
    by (simp add: power2_eq_square)
  have "0 \<le> sum_list (map (\<lambda>x. x ^ 2) xs)" by (rule sum_list_nonneg) auto
  then have "0 \<le> sum_list (map (\<lambda>x. x ^ 2) xs) / real (length xs)" by simp
  then show ?thesis
    unfolding np_mean_def m fold_fadd_Fin fold_plus_sum_list
    by (simp add: inf_of_sign_def)
qed

lemma compressor_h_agrees:
  assumes "a < length h" and "h ! a = map Fin xs"
  shows "agrees (compressor xs threshold ratio attack release on)
           (compressor_h h a threshold ratio attack release on)"
proof -
  have r: "fsqrt (np_mean (map (\<lambda>x. fmul x x) (h ! a))) =
     (if xs = [] then NaN
      else Fin (sqrt (sum_list (map (\<lambda>x. x ^ 2) xs) / real (length xs))))"
    unfolding assms(2) by (rule rms_Fin)
  have l: "length (h ! a) = length xs" by (simp add: assms(2))
  show ?thesis
    unfolding agrees_def compressor_def compressor_h_def Let_def r l
    using assms
    by (auto simp: bind_heap_def adsr_envelope_call_def adsr_envelope_call_h_def)
qed

lemma distortion_h_agrees:
  assumes "a < length h" and "h ! a = map Fin xs"
  shows "agrees (Inr (distortion xs threshold on)) (distortion_h h a threshold on)"
  using assms
  by (auto simp: agrees_def distortion_def distortion_h_def new_array_def)

lemma cascade_h_agrees:
  "r < length h \<Longrightarrow> agrees (cascade biquads (h ! r)) (cascade_h h biquads r)"
proof (induction biquads arbitrary: h r)
  case Nil
  then show ?case by (simp add: agrees_def)
next
  case (Cons ba rest)
  obtain b a where ba: "ba = (b, a)" by (cases ba)
  show ?case
  proof (cases "lfilter b a (h ! r)")
    case (Inl e)
    then show ?thesis by (simp add: ba lfilter_h_def agrees_def)
  next
    case (Inr ys)
    have "agrees (cascade rest ((h @ [ys]) ! length h)) (cascade_h (h @ [ys]) rest (length h))"
      by (rule Cons.IH) simp
    with Inr show ?thesis by (simp add: ba lfilter_h_def new_array_def)
  qed
qed

lemma equalizer_h_agrees:
  assumes "a < length h" and "h ! a = map Fin xs"
  shows "agrees (equalizer xs sr eq_params on) (equalizer_h h a sr eq_params on)"
proof (cases on)
  case False
  with assms show ?thesis by (simp add: agrees_def equalizer_def equalizer_h_def)
next
  case True
  show ?thesis
  proof (cases "equalizer_bands sr eq_params [0..<length eq_params div 3]")
    case (Inl e)
    with True show ?thesis by (simp add: agrees_def equalizer_def equalizer_h_def bind_heap_def)
  next
    case (Inr biquads)
    have "agrees (cascade biquads ((h @ [h ! a]) ! length h))
            (cascade_h (h @ [h ! a]) biquads (length h))"
      by (rule cascade_h_agrees) simp
    with Inr True assms(2) show ?thesis
      by (simp add: equalizer_def equalizer_h_def bind_heap_def new_array_def)
  qed
qed

text \<open>
  Claim C5 says that a stage that fails leaves the caller's buffer unchanged. \<open>reverb\<close>
  works in place, and with a negative delay its delay line is shorter than the buffer:
  the loop raises \<open>IndexError\<close> when it reaches the end of the line, after it has
  overwritten the samples before. With a delay of \<open>-1\<close> sample on \<open>[1, 1, 1]\<close>, the
  call fails and leaves \<open>[1, 2, 1]\<close>.
\<close>

theorem reverb_partial_write_counterexample:
  "reverb (\<lambda>_. [1, 1, 1]) 0 1 (- 1) 1 True =
     (Inl (IndexError ''index is out of bounds for axis 0''), (\<lambda>_. [1, 1, 1])(0 := [1, 2, 1]))
   \<and> ((\<lambda>_. [1, 1, 1 :: real])(0 := [1, 2, 1])) (0 :: nat) \<noteq> (\<lambda>_. [1, 1, 1]) (0 :: nat)"
  using reverb_negative_example by simp

lemma reverb_failure_frame:
  assumes "reverb s a sr delay rdecay on = (Inl e, s')"
  shows "length (s' a) = length (s a)
         \<and> (\<forall>other. other \<noteq> a \<longrightarrow> s' other = s other)
         \<and> (\<forall>j. py_int (delay * sr) + int (length (s a)) \<le> int j \<longrightarrow> s' a ! j = s a ! j)
         \<and> (py_int (delay * sr) + int (length (s a)) \<le> 0 \<longrightarrow> s' = s)"
proof (cases on)
  case False
  with assms show ?thesis by (simp add: reverb_def)
next
  case True
  with assms have "reverb s a sr delay rdecay True = (Inl e, s')" by simp
  then show ?thesis
  proof (cases rule: reverb_cases)
    case alloc
    then show ?thesis by simp
  next
    case (loop res buffer' audio')
    note fr = reverb_loop_frame [OF loop(2)]
    have len: "length audio' = length (s a)" using fr by simp
    have keep: "\<forall>j. nat (py_int (delay * sr) + int (length (s a))) \<le> j \<longrightarrow> audio' ! j = s a ! j"
      using fr by simp
    have tail: "\<forall>j. py_int (delay * sr) + int (length (s a)) \<le> int j \<longrightarrow> audio' ! j = s a ! j"
      using keep by (simp add: nat_le_iff)
    have whole: "py_int (delay * sr) + int (length (s a)) \<le> 0 \<longrightarrow> audio' = s a"
    proof
      assume "py_int (delay * sr) + int (length (s a)) \<le> 0"
      then have "\<forall>j. audio' ! j = s a ! j" using keep by simp
      with len show "audio' = s a" by (simp add: nth_equalityI)
    qed
    show ?thesis
      unfolding loop(3) using len tail whole by auto
  qed
qed

text \<open>
  Claim C5, amended: every stage other than \<open>reverb\<close> leaves every array that existed
  before the call unchanged, the caller's buffer among them, whether it fails or returns:
  what it writes, it writes to arrays it has created itself. When \<open>reverb\<close> fails, the
  caller's buffer keeps its length, no other array changes, and every sample from index
  \<open>delay_samples + N\<close> on is unchanged (\<open>N\<close> the length of the buffer); when
  \<open>delay_samples + N \<le> 0\<close> the whole store is unchanged. The samples below that index
  may hold mixed values.
\<close>

theorem failing_stage_frame:
  "(adsr_envelope_h h a len sr attack decay sustain release on = (out1, h1) \<longrightarrow>
      take (length h) h1 = h)
   \<and> (filter_envelope_h butter h a len sr freq_cutoff freq_start freq_end on = (out2, h2) \<longrightarrow>
        take (length h) h2 = h)
   \<and> (lowpass_filter_h butter h a cutoff resonance sr on = (out3, h3) \<longrightarrow>
        take (length h) h3 = h)
   \<and> (highpass_filter_h butter h a cutoff resonance sr on = (out4, h4) \<longrightarrow>
        take (length h) h4 = h)
   \<and> (compressor_h h a threshold ratio attack release on = (out5, h5) \<longrightarrow>
        take (length h) h5 = h)
   \<and> (distortion_h h a threshold on = (out6, h6) \<longrightarrow> take (length h) h6 = h)
   \<and> (equalizer_h h a sr eq_params on = (out7, h7) \<longrightarrow> take (length h) h7 = h)
   \<and> (reverb s a sr delay rdecay on = (Inl e, s') \<longrightarrow>
        length (s' a) = length (s a)
        \<and> (\<forall>other. other \<noteq> a \<longrightarrow> s' other = s other)
        \<and> (\<forall>j. py_int (delay * sr) + int (length (s a)) \<le> int j \<longrightarrow> s' a ! j = s a ! j)
        \<and> (py_int (delay * sr) + int (length (s a)) \<le> 0 \<longrightarrow> s' = s))"
proof (intro conjI impI)
  assume "reverb s a sr delay rdecay on = (Inl e, s')"
  from reverb_failure_frame [OF this]
  show "length (s' a) = length (s a)"
    and "\<forall>other. other \<noteq> a \<longrightarrow> s' other = s other"
    and "\<forall>j. py_int (delay * sr) + int (length (s a)) \<le> int j \<longrightarrow> s' a ! j = s a ! j"
    by blast+
  assume "py_int (delay * sr) + int (length (s a)) \<le> 0"
  with reverb_failure_frame [OF \<open>reverb s a sr delay rdecay on = (Inl e, s')\<close>]
  show "s' = s" by blast
qed (erule adsr_envelope_h_frame filter_envelope_h_frame lowpass_filter_h_frame
      highpass_filter_h_frame compressor_h_frame distortion_h_frame equalizer_h_frame)+

lemma adsr_envelope_h_failing_example:
  "adsr_envelope_h [[Fin 1]] 0 1 1 0 0 1 0 True =
     (Inl (ValueError ''could not broadcast input array''), [[Fin 1], [Fin 1], [], [], []])"
  by code_simp

lemma compressor_h_failing_example:
  "compressor_h [[Fin 1]] 0 (1 / 2) 2 0 0 True =
     (Inl (TypeError ''adsr_envelope() missing required positional arguments''), [[Fin 1]])"
  by (simp add: compressor_h_def np_mean_def adsr_envelope_call_h_def bind_heap_def Let_def)

theorem failing_stage_frame_witness:
  "adsr_envelope_h [[Fin 1]] 0 1 1 0 0 1 0 True =
      (Inl (ValueError ''could not broadcast input array''), [[Fin 1], [Fin 1], [], [], []])
   \<and> take (length [[Fin 1]]) [[Fin 1], [Fin 1], [], [], []] = [[Fin 1]]
   \<and> compressor_h [[Fin 1]] 0 (1 / 2) 2 0 0 True =
      (Inl (TypeError ''adsr_envelope() missing required positional arguments''), [[Fin 1]])
   \<and> reverb (\<lambda>_. [1, 1, 1]) 0 1 (- 1) 1 True =
      (Inl (IndexError ''index is out of bounds for axis 0''), (\<lambda>_. [1, 1, 1])(0 := [1, 2, 1]))
   \<and> length (((\<lambda>_. [1, 1, 1 :: real])(0 := [1, 2, 1])) (0 :: nat)) = length [1, 1, 1 :: real]
   \<and> ((\<lambda>_. [1, 1, 1 :: real])(0 := [1, 2, 1])) (0 :: nat) ! 2 = [1, 1, 1] ! 2
   \<and> reverb (\<lambda>_. [1, 2, 3]) 0 1 (- 3) 1 True =
      (Inl (IndexError ''index is out of bounds for axis 0''), (\<lambda>_. [1, 2, 3]))"
proof -
  note rv = failing_stage_frame [THEN conjunct2, THEN conjunct2, THEN conjunct2, THEN conjunct2,
      THEN conjunct2, THEN conjunct2, THEN conjunct2, THEN mp]
  from failing_stage_frame [THEN conjunct1, THEN mp, OF adsr_envelope_h_failing_example]
  have k0: "take (length [[Fin 1]]) [[Fin 1], [Fin 1], [], [], []] = [[Fin 1]]" .
  have r3: "reverb (\<lambda>_. [1, 2, 3]) 0 1 (- 3) 1 True =
      (Inl (IndexError ''index is out of bounds for axis 0''), (\<lambda>_. [1, 2, 3]))"
    by (simp add: reverb_def py_int_neg_examples np_index_def upt_rec Let_def fun_upd_idem)
  have q: "py_int (- 1 * 1) + int (length ((\<lambda>_. [1, 1, 1 :: real]) (0 :: nat))) \<le> int 2"
    by (simp add: py_int_neg_examples)
  from rv [OF reverb_negative_example]
  have k1: "length (((\<lambda>_. [1, 1, 1 :: real])(0 := [1, 2, 1])) (0 :: nat)) = length [1, 1, 1 :: real]"
    and k2: "\<forall>j. py_int (- 1 * 1) + int (length ((\<lambda>_. [1, 1, 1 :: real]) (0 :: nat))) \<le> int j \<longrightarrow>
       ((\<lambda>_. [1, 1, 1 :: real])(0 := [1, 2, 1])) (0 :: nat) ! j = (\<lambda>_. [1, 1, 1]) (0 :: nat) ! j"
    by blast+
  from k2 q have k2': "((\<lambda>_. [1, 1, 1 :: real])(0 := [1, 2, 1])) (0 :: nat) ! 2 = [1, 1, 1] ! 2"
    by simp
  show ?thesis
    by (intro conjI adsr_envelope_h_failing_example k0 compressor_h_failing_example
        reverb_negative_example k1 k2' r3)
qed

section \<open>The equalizer\<close>

lemma lfilter_run_same:
  "lfilter_run (Fin 1, Fin c1, Fin c2) (a0, Fin c1, Fin c2) (Fin 0) (Fin 0) (map Fin xs) = map Fin xs"
  by (induction xs) (simp_all add: fsub_def Let_def)

lemma lfilter_same:
  assumes "u \<noteq> 0"
  shows "lfilter (Fin u, Fin v, Fin w) (Fin u, Fin v, Fin w) (map Fin xs) = Inr (map Fin xs)"
  using assms by (simp add: lfilter_def lfilter_run_same)

lemma lfilter_a0_zero:
  "lfilter b (Fin 0, a1, a2) x = Inl (ValueError ''filter coefficient a[0] == 0 not supported yet'')"
  by (cases b) (simp add: lfilter_def)

lemma biquad_unity:
  assumes "sr \<noteq> 0" and "q \<noteq> 0"
  shows "biquad sr center_freq 0 q =
           Inr ((Fin (1 + sin (2 * pi * center_freq / sr) / (2 * q)),
                 Fin (- 2 * cos (2 * pi * center_freq / sr)),
                 Fin (1 - sin (2 * pi * center_freq / sr) / (2 * q))),
                (Fin (1 + sin (2 * pi * center_freq / sr) / (2 * q)),
                 Fin (- 2 * cos (2 * pi * center_freq / sr)),
                 Fin (1 - sin (2 * pi * center_freq / sr) / (2 * q))))"
  using assms by (simp add: biquad_def py_div_def py_pow_zero fsub_def Let_def)

lemma bind_result_cascade_nil: "bind_result m (cascade []) = m"
  by (cases m) simp_all

lemma equalizer_single_band:
  "equalizer audio sr [center_freq, gain, q] True =
     bind_result (biquad sr center_freq gain q) (\<lambda>(b, a). lfilter b a (map Fin audio))"
proof (cases "biquad sr center_freq gain q")
  case (Inl e)
  then show ?thesis by (simp add: equalizer_def upt_rec)
next
  case (Inr ba)
  then show ?thesis by (cases ba) (simp add: equalizer_def upt_rec bind_result_cascade_nil)
qed

lemma sin_quarter: "sin (2 * pi * 1 / 4) = 1"
proof -
  have "2 * pi * 1 / 4 = pi / 2" by simp
  then show ?thesis by (simp only: sin_pi_half)
qed

lemma sin_three_quarters: "sin (2 * pi * 3 / 4) = - 1"
proof -
  have "2 * pi * 3 / 4 = 3 / 2 * pi" by simp
  then show ?thesis by (simp only: sin_3over2_pi)
qed

text \<open>
  Claim C8 says that a single band of \<open>0\<close> dB leaves the signal unchanged for every
  center frequency and every positive \<open>Q\<close>. With a gain of \<open>0\<close> dB the two
  coefficient arrays of the band are equal, and their first element is
  \<open>1 + sin w0 / (2 Q)\<close>. Above half the sample rate the sine is negative: at three
  quarters of the sample rate and \<open>Q = 1 / 2\<close> that first element is \<open>0\<close>, and
  \<open>lfilter\<close> raises.
\<close>

theorem equalizer_unity_gain_counterexample:
  "(0 :: real) < 1 / 2
   \<and> equalizer [1] 4 [3, 0, 1 / 2] True =
       Inl (ValueError ''filter coefficient a[0] == 0 not supported yet'')"
  using sin_three_quarters
  by (simp add: equalizer_def biquad_def py_div_def py_pow_zero lfilter_def fsub_def upt_rec)

text \<open>
  Claim C8, amended: for every input buffer, every sample rate other than \<open>0\<close>, every
  center frequency and every positive \<open>Q\<close>, \<open>equalizer\<close> with \<open>on = True\<close> and a
  single band of \<open>0\<close> dB returns the signal unchanged, in exact arithmetic, unless
  \<open>1 + sin (2 \<pi> f / sr) / (2 Q) = 0\<close>, where it raises \<open>ValueError\<close>; in particular it
  returns the signal unchanged for every \<open>Q > 1 / 2\<close>.
\<close>

theorem equalizer_unity_gain:
  assumes "sr \<noteq> 0" and "0 < q"
  shows "equalizer audio sr [center_freq, 0, q] True =
           (if 1 + sin (2 * pi * center_freq / sr) / (2 * q) = 0
            then Inl (ValueError ''filter coefficient a[0] == 0 not supported yet'')
            else Inr (map Fin audio))
         \<and> (1 / 2 < q \<longrightarrow> equalizer audio sr [center_freq, 0, q] True = Inr (map Fin audio))"
proof -
  let ?u = "1 + sin (2 * pi * center_freq / sr) / (2 * q)"
  from assms have q0: "q \<noteq> 0" by simp
  have main: "equalizer audio sr [center_freq, 0, q] True =
           (if ?u = 0
            then Inl (ValueError ''filter coefficient a[0] == 0 not supported yet'')
            else Inr (map Fin audio))"
  proof (cases "?u = 0")
    case True
    then show ?thesis
      unfolding equalizer_single_band biquad_unity [OF assms(1) q0]
      by (simp add: lfilter_a0_zero)
  next
    case False
    then show ?thesis
      unfolding equalizer_single_band biquad_unity [OF assms(1) q0]
      by (simp add: lfilter_same)
  qed
  have "?u \<noteq> 0" if h: "1 / 2 < q"
  proof -
    have "- 1 \<le> sin (2 * pi * center_freq / sr)" by simp
    moreover have "- (2 * q) < - 1" using h by simp
    ultimately have "- (2 * q) < sin (2 * pi * center_freq / sr)" by linarith
    then have "- 1 < sin (2 * pi * center_freq / sr) / (2 * q)"
      using assms(2) by (simp add: pos_less_divide_eq)
    then show ?thesis by linarith
  qed
  with main show ?thesis by simp
qed

theorem equalizer_unity_gain_witness:
  "(4 :: real) \<noteq> 0 \<and> (0 :: real) < 1
   \<and> equalizer [1, 2] 4 [1, 0, 1] True = Inr [Fin 1, Fin 2]"
  using equalizer_unity_gain [of 4 1 "[1, 2]" 1] sin_quarter by simp

lemma equalizer_bands_take:
  assumes "\<forall>i \<in> set idx. i < m"
  shows "equalizer_bands sr (take (3 * m) eq_params) idx = equalizer_bands sr eq_params idx"
  using assms by (induction idx) simp_all

lemma length_take_triples:
  "length (take (3 * (length xs div 3)) xs) div 3 = length xs div 3"
  by simp

lemma equalizer_take:
  "equalizer audio sr (take (3 * (length eq_params div 3)) eq_params) on =
     equalizer audio sr eq_params on"
  unfolding equalizer_def length_take_triples
  by (simp add: equalizer_bands_take)

lemma length_equalizer_bands:
  "equalizer_bands sr eq_params idx = Inr biquads \<Longrightarrow> length biquads = length idx"
  by (induction idx arbitrary: biquads) (auto elim!: bind_result_InrE)

lemma biquad_ok_iff:
  "(\<exists>ba. biquad sr center_freq gain q = Inr ba)
     \<longleftrightarrow> sr \<noteq> 0 \<and> 10 powr (gain / 40) \<le> float_max"
  by (simp add: biquad_def py_div_def py_pow_def Let_def)

lemma equalizer_bands_ok_iff:
  "(\<exists>biquads. equalizer_bands sr eq_params idx = Inr biquads)
     \<longleftrightarrow> (\<forall>i \<in> set idx. sr \<noteq> 0 \<and> 10 powr (eq_params ! (i * 3 + 1) / 40) \<le> float_max)"
proof (induction idx)
  case Nil
  then show ?case by simp
next
  case (Cons i rest)
  show ?case
  proof (cases "biquad sr (eq_params ! (i * 3)) (eq_params ! (i * 3 + 1)) (eq_params ! (i * 3 + 2))")
    case (Inl e)
    then have "\<not> (\<exists>ba. biquad sr (eq_params ! (i * 3)) (eq_params ! (i * 3 + 1))
                     (eq_params ! (i * 3 + 2)) = Inr ba)" by simp
    then have "\<not> (sr \<noteq> 0 \<and> 10 powr (eq_params ! (i * 3 + 1) / 40) \<le> float_max)"
      unfolding biquad_ok_iff .
    with Inl show ?thesis by auto
  next
    case (Inr ba)
    then have "\<exists>ba. biquad sr (eq_params ! (i * 3)) (eq_params ! (i * 3 + 1))
                     (eq_params ! (i * 3 + 2)) = Inr ba" by blast
    then have ok: "sr \<noteq> 0 \<and> 10 powr (eq_params ! (i * 3 + 1) / 40) \<le> float_max"
      unfolding biquad_ok_iff .
    show ?thesis
    proof (cases "equalizer_bands sr eq_params rest")
      case (Inl e)
      with Inr Cons.IH ok show ?thesis by auto
    next
      case r: (Inr bs)
      with Inr Cons.IH ok show ?thesis by auto
    qed
  qed
qed

lemma lfilter_ok_iff: "(\<exists>y. lfilter b a x = Inr y) \<longleftrightarrow> fst a \<noteq> Fin 0"
  by (cases b; cases a) (simp add: lfilter_def)

lemma cascade_ok_iff:
  "(\<exists>y. cascade biquads x = Inr y) \<longleftrightarrow> (\<forall>ba \<in> set biquads. fst (snd ba) \<noteq> Fin 0)"
proof (induction biquads arbitrary: x)
  case Nil
  then show ?case by simp
next
  case (Cons ba rest)
  obtain b a where ba: "ba = (b, a)" by (cases ba)
  show ?case
  proof (cases "lfilter b a x")
    case (Inl e)
    then have "fst a = Fin 0" using lfilter_ok_iff [of b a x] by simp
    with Inl show ?thesis by (simp add: ba)
  next
    case (Inr v)
    then have "fst a \<noteq> Fin 0" using lfilter_ok_iff [of b a x] by auto
    with Inr Cons.IH [of v] show ?thesis by (simp add: ba)
  qed
qed

text \<open>A gain of 20000 dB overflows: \<open>2\<^sup>1\<^sup>0 < 10\<^sup>4\<close>, so the largest double is below \<open>10\<^sup>5\<^sup>0\<^sup>0\<close>.\<close>

lemma float_max_less: "float_max < 10 powr 500"
proof -
  have "(2 :: real) ^ 10 < 10 ^ 4" by simp
  then have "((2 :: real) ^ 10) ^ 103 < (10 ^ 4) ^ 103"
    by (rule power_strict_mono) simp_all
  then have a: "(2 :: real) ^ (10 * 103) < 10 ^ (4 * 103)"
    by (simp only: power_mult)
  have "(2 ^ 53 - 1) * 2 ^ 971 \<le> (2 :: real) ^ 53 * 2 ^ 971"
    by (rule mult_right_mono) (simp, rule zero_le_power, simp)
  also have "\<dots> = 2 ^ (53 + 971)" by (simp only: power_add)
  also have "\<dots> \<le> 2 ^ (10 * 103)" by (rule power_increasing) simp_all
  also note a
  also have "(10 :: real) ^ (4 * 103) \<le> 10 ^ 500" by (rule power_increasing) simp_all
  finally have "(2 ^ 53 - 1) * 2 ^ 971 < (10 :: real) ^ 500" .
  moreover have "(10 :: real) powr 500 = 10 ^ 500"
    by (rule powr_numeral) simp
  ultimately show ?thesis by (simp only: float_max_def)
qed

text \<open>
  Claim C10 says that \<open>equalizer\<close> succeeds on every parameter list whose length is not
  a multiple of \<open>3\<close>. The leftover values are never read, but a complete band can still
  make the call fail: here the one band has a zero first denominator coefficient.
\<close>

theorem equalizer_trailing_values_counterexample:
  "length [3, 0, 1 / 2, 7 :: real] mod 3 \<noteq> 0
   \<and> equalizer [1] 4 [3, 0, 1 / 2, 7] True =
       Inl (ValueError ''filter coefficient a[0] == 0 not supported yet'')"
  using sin_three_quarters
  by (simp add: equalizer_def biquad_def py_div_def py_pow_zero lfilter_def fsub_def upt_rec)

text \<open>
  Claim C10, amended: for every parameter list (in particular one whose length is not a
  multiple of \<open>3\<close>), \<open>equalizer\<close> does exactly what it does on the list cut to
  \<open>3 * (len div 3)\<close> values, output or error alike: the trailing values are ignored and
  it never fails because of them. The coefficients of all bands can be computed exactly
  when, for each of the \<open>len div 3\<close> bands, the sample rate is not \<open>0\<close> and the power
  \<open>10**(gain / 40)\<close> does not overflow; then there are exactly \<open>len div 3\<close> bands. The
  call succeeds exactly when the coefficients can be computed and no band has a zero first
  denominator coefficient \<open>a0\<close>.
\<close>

theorem equalizer_trailing_values:
  "equalizer audio sr eq_params on =
     equalizer audio sr (take (3 * (length eq_params div 3)) eq_params) on
   \<and> (equalizer_bands sr eq_params [0..<length eq_params div 3] = Inr biquads \<longrightarrow>
        length biquads = length eq_params div 3)
   \<and> ((\<exists>bs. equalizer_bands sr eq_params [0..<length eq_params div 3] = Inr bs)
        \<longleftrightarrow> (\<forall>i < length eq_params div 3.
               sr \<noteq> 0 \<and> 10 powr (eq_params ! (i * 3 + 1) / 40) \<le> float_max))
   \<and> ((\<exists>y. equalizer audio sr eq_params True = Inr y)
        \<longleftrightarrow> (\<exists>bs. equalizer_bands sr eq_params [0..<length eq_params div 3] = Inr bs
                  \<and> (\<forall>ba \<in> set bs. fst (snd ba) \<noteq> Fin 0)))"
proof (intro conjI impI)
  show "equalizer audio sr eq_params on =
     equalizer audio sr (take (3 * (length eq_params div 3)) eq_params) on"
    by (rule equalizer_take [symmetric])
next
  assume "equalizer_bands sr eq_params [0..<length eq_params div 3] = Inr biquads"
  from length_equalizer_bands [OF this] show "length biquads = length eq_params div 3" by simp
next
  show "(\<exists>bs. equalizer_bands sr eq_params [0..<length eq_params div 3] = Inr bs)
        \<longleftrightarrow> (\<forall>i < length eq_params div 3.
               sr \<noteq> 0 \<and> 10 powr (eq_params ! (i * 3 + 1) / 40) \<le> float_max)"
    unfolding equalizer_bands_ok_iff by auto
next
  show "(\<exists>y. equalizer audio sr eq_params True = Inr y)
        \<longleftrightarrow> (\<exists>bs. equalizer_bands sr eq_params [0..<length eq_params div 3] = Inr bs
                  \<and> (\<forall>ba \<in> set bs. fst (snd ba) \<noteq> Fin 0))"
  proof (cases "equalizer_bands sr eq_params [0..<length eq_params div 3]")
    case (Inl e)
    then show ?thesis by (simp add: equalizer_def)
  next
    case (Inr bs)
    then show ?thesis
      unfolding equalizer_def using cascade_ok_iff [of bs "map Fin audio"] by simp
  qed
qed

theorem equalizer_trailing_values_witness:
  "length [0, 0, 1, 7 :: real] mod 3 \<noteq> 0
   \<and> equalizer [1, 1] 1 [0, 0, 1, 7] True = Inr [Fin 1, Fin 1]
   \<and> (\<exists>bs. equalizer_bands 1 [0, 0, 1, 7] [0..<length [0, 0, 1, 7 :: real] div 3] = Inr bs
         \<and> length bs = 1)
   \<and> length [1, 20000, 1, 7 :: real] mod 3 \<noteq> 0
   \<and> \<not> (\<exists>y. equalizer [1] 4 [1, 20000, 1, 7] True = Inr y)"
proof -
  note t = equalizer_trailing_values [of "[1, 1]" 1 "[0, 0, 1, 7]" True]
  note u = equalizer_trailing_values [of "[1]" 4 "[1, 20000, 1, 7]" True]
  have n: "length [0, 0, 1, 7 :: real] div 3 = 1" "length [1, 20000, 1, 7 :: real] div 3 = 1"
    by simp_all
  have tk: "take (3 * (length [0, 0, 1, 7 :: real] div 3)) [0, 0, 1, 7 :: real] = [0, 0, 1]"
    by simp
  have e: "equalizer [1, 1] 1 [0, 0, 1, 7] True = Inr [Fin 1, Fin 1]"
    using t [THEN conjunct1] unfolding tk equalizer_example .
  have "\<forall>i < length [0, 0, 1, 7 :: real] div 3.
          (1 :: real) \<noteq> 0 \<and> 10 powr ([0, 0, 1, 7] ! (i * 3 + 1) / 40) \<le> float_max"
    unfolding n using one_le_float_max by simp
  with t [THEN conjunct2, THEN conjunct2, THEN conjunct1]
  obtain bs
    where bs: "equalizer_bands 1 [0, 0, 1, 7] [0..<length [0, 0, 1, 7 :: real] div 3] = Inr bs"
    by blast
  from equalizer_trailing_values [of "[1, 1]" 1 "[0, 0, 1, 7]" True bs,
      THEN conjunct2, THEN conjunct1] bs n(1)
  have "length bs = 1" by simp
  with bs have b: "\<exists>bs. equalizer_bands 1 [0, 0, 1, 7] [0..<length [0, 0, 1, 7 :: real] div 3] = Inr bs
         \<and> length bs = 1" by blast
  have d: "[1, 20000, 1, 7 :: real] ! (0 * 3 + 1) / 40 = 500" by simp
  have "\<not> 10 powr ([1, 20000, 1, 7] ! (0 * 3 + 1) / 40) \<le> float_max"
    unfolding d using float_max_less by (simp only: not_le)
  then have "\<not> (\<forall>i < length [1, 20000, 1, 7 :: real] div 3.
          (4 :: real) \<noteq> 0 \<and> 10 powr ([1, 20000, 1, 7] ! (i * 3 + 1) / 40) \<le> float_max)"
    unfolding n by blast
  with u [THEN conjunct2, THEN conjunct2, THEN conjunct1]
  have "\<not> (\<exists>bs. equalizer_bands 4 [1, 20000, 1, 7] [0..<length [1, 20000, 1, 7 :: real] div 3] = Inr bs)"
    by blast
  with u [THEN conjunct2, THEN conjunct2, THEN conjunct2]
  have o: "\<not> (\<exists>y. equalizer [1] 4 [1, 20000, 1, 7] True = Inr y)"
    by blast
  have m: "length [0, 0, 1, 7 :: real] mod 3 \<noteq> 0" "length [1, 20000, 1, 7 :: real] mod 3 \<noteq> 0"
    by simp_all
  show ?thesis
    by (intro conjI m e b o)
qed

end
